theory Spec2Isabelle
  imports Complex_Main "HOL-Library.AList" "HOL-Library.Multiset"
begin

section \<open>Vectors and the voxel lattice\<close>

text \<open>
  The engine's \<open>Vector3Like\<close> is an object with three numeric fields. Script numbers
  are modelled as exact reals wherever they are measured quantities (power, force,
  velocity, mass), as naturals where they are counters or indices, and as integers where
  they are block coordinates of the voxel lattice (every call of the course builder in
  the repository passes integer literals).
\<close>

datatype Vector3Like = Vec3 (vx: real) (vy: real) (vz: real)

definition zeroVec :: Vector3Like where
  "zeroVec = Vec3 0 0 0"

type_synonym BlockPos = "int \<times> int \<times> int"

text \<open>The chunk lattice of the engine: which block id, if any, sits at a lattice point.\<close>

type_synonym ChunkLattice = "BlockPos \<Rightarrow> nat option"

definition setBlock :: "ChunkLattice \<Rightarrow> BlockPos \<Rightarrow> nat \<Rightarrow> ChunkLattice" where
  "setBlock world pos blockId = world(pos \<mapsto> blockId)"

subsection \<open>Course stamping (index.ts: buildRectangle, buildCircle)\<close>

text \<open>
  The three nested \<open>for\<close> loops of \<open>buildRectangle\<close> run \<open>x\<close>, \<open>y\<close> and \<open>z\<close> from the
  smaller to the larger corner coordinate in steps of one; each is a fold over the
  integer interval.
\<close>

definition buildRectangle :: "ChunkLattice \<Rightarrow> BlockPos \<Rightarrow> BlockPos \<Rightarrow> nat \<Rightarrow> ChunkLattice" where
  "buildRectangle world corner1 corner2 blockId =
     (case corner1 of (x1, y1, z1) \<Rightarrow> case corner2 of (x2, y2, z2) \<Rightarrow>
        let minX = min x1 x2; maxX = max x1 x2;
            minY = min y1 y2; maxY = max y1 y2;
            minZ = min z1 z2; maxZ = max z1 z2
        in fold (\<lambda>x w.
             fold (\<lambda>y w.
               fold (\<lambda>z w. setBlock w (x, y, z) blockId) [minZ..maxZ] w)
             [minY..maxY] w)
           [minX..maxX] world)"

text \<open>\<open>Math.sqrt((x - center.x) ** 2 + (z - center.z) ** 2)\<close>\<close>

definition distance :: "int \<Rightarrow> int \<Rightarrow> int \<Rightarrow> int \<Rightarrow> real" where
  "distance x z cx cz = sqrt (real_of_int ((x - cx)\<^sup>2 + (z - cz)\<^sup>2))"

definition buildCircle :: "ChunkLattice \<Rightarrow> BlockPos \<Rightarrow> int \<Rightarrow> nat \<Rightarrow> ChunkLattice" where
  "buildCircle world center radius blockId =
     (case center of (cx, cy, cz) \<Rightarrow>
        fold (\<lambda>x w.
          fold (\<lambda>z w.
            if distance x z cx cz \<le> real_of_int radius
            then setBlock w (x, cy, z) blockId else w)
          [cz - radius..cz + radius] w)
        [cx - radius..cx + radius] world)"

section \<open>The golf ball entity (GolfBallEntity.ts)\<close>

text \<open>
  The ball's own fields and the part of the engine's entity state that the ball's
  methods read or write. The engine is a black box: \<open>applyImpulse\<close> is recorded as a
  log of the impulses handed to it, \<open>setLinearVelocity\<close>, \<open>setAngularVelocity\<close> and
  \<open>setPosition\<close> overwrite the corresponding field. Audio and console output carry no
  state that any method reads back and are left out.
\<close>

record GolfBallEntity =
  ballMass :: real
  isSpawned :: bool
  position :: Vector3Like
  linearVelocity :: Vector3Like
  angularVelocity :: Vector3Like
  isRolling :: bool
  appliedImpulses :: "Vector3Like list"

definition applyImpulse :: "Vector3Like \<Rightarrow> GolfBallEntity \<Rightarrow> GolfBallEntity" where
  "applyImpulse impulse b = b\<lparr>appliedImpulses := appliedImpulses b @ [impulse]\<rparr>"

text \<open>The constructor with the default options: mass 0.045, not spawned.\<close>

definition newGolfBall :: GolfBallEntity where
  "newGolfBall = \<lparr>ballMass = 45 / 1000, isSpawned = False, position = zeroVec,
     linearVelocity = zeroVec, angularVelocity = zeroVec, isRolling = False,
     appliedImpulses = []\<rparr>"

definition hit :: "Vector3Like \<Rightarrow> real \<Rightarrow> GolfBallEntity \<Rightarrow> GolfBallEntity" where
  "hit direction force b =
     (if \<not> isSpawned b then b
      else
        let impulse = Vec3 (vx direction * force * ballMass b)
                           (vy direction * force * ballMass b)
                           (vz direction * force * ballMass b)
        in applyImpulse impulse b)"

definition stopBall :: "GolfBallEntity \<Rightarrow> GolfBallEntity" where
  "stopBall b =
     (if \<not> isSpawned b then b
      else b\<lparr>linearVelocity := zeroVec, angularVelocity := zeroVec, isRolling := False\<rparr>)"

definition resetToPosition :: "Vector3Like \<Rightarrow> GolfBallEntity \<Rightarrow> GolfBallEntity" where
  "resetToPosition pos b =
     (if \<not> isSpawned b then b
      else (stopBall b)\<lparr>position := pos\<rparr>)"

definition isMoving :: "GolfBallEntity \<Rightarrow> bool" where
  "isMoving b =
     (let velocity = linearVelocity b;
          speed = sqrt ((vx velocity)\<^sup>2 + (vy velocity)\<^sup>2 + (vz velocity)\<^sup>2)
      in speed > 1 / 100)"

text \<open>\<open>spawn\<close> and \<open>despawn\<close> delegate to the engine, which places or removes the entity.\<close>

definition spawnBall :: "Vector3Like \<Rightarrow> GolfBallEntity \<Rightarrow> GolfBallEntity" where
  "spawnBall pos b = b\<lparr>isSpawned := True, position := pos\<rparr>"

definition despawnBall :: "GolfBallEntity \<Rightarrow> GolfBallEntity" where
  "despawnBall b = b\<lparr>isSpawned := False\<rparr>"

section \<open>The golf player entity (GolfPlayerEntity.ts)\<close>

text \<open>
  A player entity holds a reference to the ball it will hit. The ball is an object shared
  with the game manager, so balls live in a store (a list indexed by reference) and the
  entity keeps the index. \<open>inWorld\<close> stands for \<open>this.world\<close> being defined, and
  \<open>entityPosition\<close> for the engine's \<open>this.position\<close>. Camera, audio and messages to the
  player's UI are handed to the engine and never read back; they are left out.
\<close>

type_synonym BallStore = "GolfBallEntity list"

definition onBall :: "nat \<Rightarrow> (GolfBallEntity \<Rightarrow> GolfBallEntity) \<Rightarrow> BallStore \<Rightarrow> BallStore" where
  "onBall ref m bs = (if ref < length bs then bs[ref := m (bs ! ref)] else bs)"

record GolfPlayerEntity =
  maxPower :: real
  currentPower :: real
  isCharging :: bool
  isAiming :: bool
  currentBall :: "nat option"
  shotCount :: nat
  isPlayerTurn :: bool
  inWorld :: bool
  entityPosition :: Vector3Like

text \<open>The constructor: \<open>maxPower = options.maxPower ?? 100\<close>, every flag off.\<close>

definition newGolfPlayer :: "real option \<Rightarrow> GolfPlayerEntity" where
  "newGolfPlayer optMaxPower =
     \<lparr>maxPower = (case optMaxPower of None \<Rightarrow> 100 | Some m \<Rightarrow> m),
      currentPower = 0, isCharging = False, isAiming = False, currentBall = None,
      shotCount = 0, isPlayerTurn = False, inWorld = False, entityPosition = zeroVec\<rparr>"

definition spawnPlayer :: "Vector3Like \<Rightarrow> GolfPlayerEntity \<Rightarrow> GolfPlayerEntity" where
  "spawnPlayer pos e = e\<lparr>inWorld := True, entityPosition := pos\<rparr>"

definition setGolfBall :: "nat \<Rightarrow> GolfPlayerEntity \<Rightarrow> GolfPlayerEntity" where
  "setGolfBall ball e = e\<lparr>currentBall := Some ball\<rparr>"

definition startAiming :: "GolfPlayerEntity \<Rightarrow> GolfPlayerEntity" where
  "startAiming e = (if currentBall e = None then e else e\<lparr>isAiming := True\<rparr>)"

definition stopAiming :: "GolfPlayerEntity \<Rightarrow> GolfPlayerEntity" where
  "stopAiming e = e\<lparr>isAiming := False\<rparr>"

definition toggleAiming :: "GolfPlayerEntity \<Rightarrow> GolfPlayerEntity" where
  "toggleAiming e = (if isAiming e then stopAiming e else startAiming e)"

definition startTurn :: "GolfPlayerEntity \<Rightarrow> GolfPlayerEntity" where
  "startTurn e = startAiming (e\<lparr>isPlayerTurn := True, shotCount := 0\<rparr>)"

definition endTurn :: "GolfPlayerEntity \<Rightarrow> GolfPlayerEntity" where
  "endTurn e = e\<lparr>isPlayerTurn := False, isAiming := False, isCharging := False,
                   currentPower := 0\<rparr>"

definition getScore :: "GolfPlayerEntity \<Rightarrow> nat" where
  "getScore e = shotCount e"

definition startCharging :: "GolfPlayerEntity \<Rightarrow> GolfPlayerEntity" where
  "startCharging e = e\<lparr>isCharging := True, currentPower := 0\<rparr>"

definition updatePower :: "GolfPlayerEntity \<Rightarrow> GolfPlayerEntity" where
  "updatePower e =
     (if \<not> isCharging e then e
      else
        let powerIncrement = maxPower e / (60 * 2)
        in e\<lparr>currentPower := min (currentPower e + powerIncrement) (maxPower e)\<rparr>)"

text \<open>\<open>const force = (this._currentPower / this.maxPower) * 50\<close>\<close>

definition shotForce :: "GolfPlayerEntity \<Rightarrow> real" where
  "shotForce e = (currentPower e / maxPower e) * 50"

text \<open>
  \<open>_executeShot\<close>. The third component of the result counts the \<open>golf-shot\<close> events
  emitted (none on the early return, one otherwise). \<open>aimDirection\<close> is the camera's
  facing direction, an input from the engine.
\<close>

definition executeShot ::
  "Vector3Like \<Rightarrow> GolfPlayerEntity \<Rightarrow> BallStore \<Rightarrow> GolfPlayerEntity \<times> BallStore \<times> nat" where
  "executeShot aimDirection e bs =
     (case currentBall e of
        None \<Rightarrow> (e, bs, 0)
      | Some ball \<Rightarrow>
          if \<not> isCharging e \<or> \<not> inWorld e then (e, bs, 0)
          else
            let e1 = e\<lparr>isCharging := False\<rparr>;
                force = shotForce e1;
                bs1 = onBall ball (hit aimDirection force) bs;
                e2 = e1\<lparr>shotCount := shotCount e1 + 1\<rparr>;
                e3 = e2\<lparr>currentPower := 0\<rparr>;
                e4 = stopAiming e3
            in (e4, bs1, 1))"

definition resetBall :: "GolfPlayerEntity \<Rightarrow> BallStore \<Rightarrow> BallStore" where
  "resetBall e bs =
     (case currentBall e of
        None \<Rightarrow> bs
      | Some ball \<Rightarrow>
          let p = entityPosition e;
              resetPosition = Vec3 (vx p) (vy p + 1) (vz p)
          in onBall ball (resetToPosition resetPosition) bs)"

datatype PlayerInput = PlayerInput (input_sp: bool) (input_f: bool) (input_r: bool)

text \<open>
  The listener that \<open>_setupGolfControls\<close> installs on the controller's
  tick-with-player-input event.
\<close>

definition tickWithPlayerInput ::
  "PlayerInput \<Rightarrow> Vector3Like \<Rightarrow> GolfPlayerEntity \<Rightarrow> BallStore
     \<Rightarrow> GolfPlayerEntity \<times> BallStore \<times> nat" where
  "tickWithPlayerInput input facing e bs =
     (if \<not> isPlayerTurn e then (e, bs, 0)
      else
        case (if input_sp input \<and> \<not> isCharging e \<and> isAiming e then (startCharging e, bs, 0)
              else if \<not> input_sp input \<and> isCharging e then executeShot facing e bs
              else (e, bs, 0)) of
          (e1, bs1, shots) \<Rightarrow>
            let e2 = (if isCharging e1 then updatePower e1 else e1);
                e3 = (if input_f input \<and> isPlayerTurn e2 then toggleAiming e2 else e2);
                bs3 = (if input_r input \<and> isPlayerTurn e3 \<and> currentBall e3 \<noteq> None
                       then resetBall e3 bs1 else bs1)
            in (e3, bs3, shots))"

section \<open>The game manager (GolfGameManager.ts)\<close>

record GolfHole =
  holeId :: nat
  holeName :: string
  par :: nat
  teePosition :: Vector3Like
  holePosition :: Vector3Like
  holeRadius :: real

text \<open>
  \<open>strokes\<close> is a script array written by index: a slot never written is \<open>None\<close>.
  \<open>player\<close> is the player's id.
\<close>

record PlayerScore =
  player :: string
  golfEntity :: GolfPlayerEntity
  strokes :: "nat option list"
  totalStrokes :: nat
  scoreCurrentHole :: nat

text \<open>\<open>array[i] = v\<close>: an index past the end extends the array, leaving empty slots.\<close>

definition arraySet :: "'a option list \<Rightarrow> nat \<Rightarrow> 'a \<Rightarrow> 'a option list" where
  "arraySet xs i v =
     (if i < length xs then xs[i := Some v]
      else xs @ replicate (i - length xs) None @ [Some v])"

datatype JsError = TypeError string

text \<open>The callbacks handed to \<open>setTimeout\<close>: after a shot (1000 ms), while the ball
  still moves (100 ms), after a completed hole (3000 ms).\<close>

datatype Timer = ShotSettled | RetryNextTurn | NextHole

text \<open>
  \<open>players\<close> is the insertion-ordered \<open>Map\<close> from player id to score, as an association
  list. \<open>currentPlayerIndex\<close> is a script number: \<open>None\<close> stands for \<open>NaN\<close>, which
  \<open>% 0\<close> produces. \<open>balls\<close> is the store of ball objects and \<open>timers\<close> the pending
  timeouts; both belong to the runtime rather than to the class.
\<close>

record GolfGameManager =
  players :: "(string \<times> PlayerScore) list"
  currentPlayerIndex :: "nat option"
  currentHole :: nat
  gameInProgress :: bool
  holes :: "GolfHole list"
  golfBall :: "nat option"
  balls :: BallStore
  timers :: "Timer list"

definition setupDefaultCourse :: "GolfHole list" where
  "setupDefaultCourse =
     [\<lparr>holeId = 1, holeName = ''Starter Hole'', par = 3,
       teePosition = Vec3 (-10) 2 0, holePosition = Vec3 10 2 0, holeRadius = 1 / 2\<rparr>,
      \<lparr>holeId = 2, holeName = ''Dogleg Right'', par = 4,
       teePosition = Vec3 (-15) 2 10, holePosition = Vec3 15 2 (-5), holeRadius = 1 / 2\<rparr>,
      \<lparr>holeId = 3, holeName = ''Long Drive'', par = 5,
       teePosition = Vec3 0 2 (-20), holePosition = Vec3 0 2 25, holeRadius = 1 / 2\<rparr>]"

definition newManager :: GolfGameManager where
  "newManager = \<lparr>players = [], currentPlayerIndex = Some 0, currentHole = 0,
     gameInProgress = False, holes = setupDefaultCourse, golfBall = None, balls = [],
     timers = []\<rparr>"

definition getCurrentPlayer :: "GolfGameManager \<Rightarrow> PlayerScore option" where
  "getCurrentPlayer s =
     (case currentPlayerIndex s of
        None \<Rightarrow> None
      | Some i \<Rightarrow> if i < length (players s) then Some (snd (players s ! i)) else None)"

text \<open>An update of the object that \<open>_getCurrentPlayer\<close> returned.\<close>

definition modifyCurrentPlayer ::
  "(PlayerScore \<Rightarrow> PlayerScore) \<Rightarrow> GolfGameManager \<Rightarrow> GolfGameManager" where
  "modifyCurrentPlayer m s =
     (case currentPlayerIndex s of
        None \<Rightarrow> s
      | Some i \<Rightarrow>
          if i < length (players s)
          then s\<lparr>players := (players s)[i := (fst (players s ! i), m (snd (players s ! i)))]\<rparr>
          else s)"

definition addPlayer :: "string \<Rightarrow> GolfPlayerEntity \<Rightarrow> GolfGameManager \<Rightarrow> GolfGameManager" where
  "addPlayer pid entity s =
     s\<lparr>players := AList.update pid
          \<lparr>player = pid, golfEntity = entity, strokes = [], totalStrokes = 0,
           scoreCurrentHole = 0\<rparr> (players s)\<rparr>"

text \<open>\<open>this._golfBall?.isMoving()\<close>: without a ball the test is falsy.\<close>

definition ballMoving :: "GolfGameManager \<Rightarrow> bool" where
  "ballMoving s =
     (case golfBall s of
        None \<Rightarrow> False
      | Some ref \<Rightarrow> ref < length (balls s) \<and> isMoving (balls s ! ref))"

definition createGolfBall :: "GolfGameManager \<Rightarrow> GolfGameManager" where
  "createGolfBall s =
     (let s1 = (case golfBall s of
                  None \<Rightarrow> s
                | Some old \<Rightarrow>
                    if old < length (balls s) \<and> isSpawned (balls s ! old)
                    then s\<lparr>balls := onBall old despawnBall (balls s)\<rparr> else s)
      in s1\<lparr>golfBall := Some (length (balls s1)), balls := balls s1 @ [newGolfBall]\<rparr>)"

text \<open>
  \<open>_startPlayerTurn\<close>: every score object other than the current one has its entity's
  turn ended; then the current entity is given the ball and its turn started.
\<close>

definition startPlayerTurn :: "GolfGameManager \<Rightarrow> GolfGameManager" where
  "startPlayerTurn s =
     (case currentPlayerIndex s of
        None \<Rightarrow> s
      | Some i \<Rightarrow>
          if \<not> i < length (players s) then s
          else
            let ended = map (\<lambda>(j, (k, p)).
                          if j \<noteq> i then (k, p\<lparr>golfEntity := endTurn (golfEntity p)\<rparr>)
                          else (k, p))
                        (enumerate 0 (players s));
                cur = snd (ended ! i);
                e1 = (case golfBall s of
                        None \<Rightarrow> golfEntity cur
                      | Some ball \<Rightarrow> setGolfBall ball (golfEntity cur));
                e2 = startTurn e1
            in s\<lparr>players := ended[i := (fst (ended ! i), cur\<lparr>golfEntity := e2\<rparr>)]\<rparr>)"

text \<open>\<open>(this._currentPlayerIndex + 1) % this._players.size\<close> on script numbers.\<close>

definition nextIndex :: "nat option \<Rightarrow> nat \<Rightarrow> nat option" where
  "nextIndex idx n =
     (case idx of
        None \<Rightarrow> None
      | Some i \<Rightarrow> if n = 0 then None else Some ((i + 1) mod n))"

definition nextPlayerTurn :: "GolfGameManager \<Rightarrow> GolfGameManager" where
  "nextPlayerTurn s =
     (if ballMoving s then s\<lparr>timers := timers s @ [RetryNextTurn]\<rparr>
      else startPlayerTurn
             (s\<lparr>currentPlayerIndex := nextIndex (currentPlayerIndex s) (length (players s))\<rparr>))"

text \<open>
  \<open>_startHole\<close>. Past the last hole the method calls \<open>this._endGame()\<close>; the class
  defines \<open>endGame\<close> and no \<open>_endGame\<close>, so the call raises a \<open>TypeError\<close>.
\<close>

definition startHole :: "nat \<Rightarrow> GolfGameManager \<Rightarrow> GolfGameManager \<times> JsError option" where
  "startHole holeIndex s =
     (if holeIndex \<ge> length (holes s)
      then (s, Some (TypeError ''this._endGame is not a function''))
      else
        let s1 = s\<lparr>currentHole := holeIndex\<rparr>;
            hole = holes s1 ! holeIndex;
            s2 = (case golfBall s1 of
                    None \<Rightarrow> s1
                  | Some ball \<Rightarrow> s1\<lparr>balls := onBall ball (spawnBall (teePosition hole)) (balls s1)\<rparr>);
            s3 = s2\<lparr>currentPlayerIndex := Some 0\<rparr>
        in (startPlayerTurn s3, None))"

definition startGame :: "GolfGameManager \<Rightarrow> GolfGameManager \<times> JsError option" where
  "startGame s =
     (if length (players s) = 0 then (s, None)
      else
        let s1 = s\<lparr>gameInProgress := True, currentHole := 0, currentPlayerIndex := Some 0\<rparr>;
            s2 = s1\<lparr>players := map (\<lambda>(k, p).
                        (k, p\<lparr>strokes := [], totalStrokes := 0, scoreCurrentHole := 0\<rparr>))
                      (players s1)\<rparr>;
            s3 = createGolfBall s2
        in startHole 0 s3)"

definition removePlayer :: "string \<Rightarrow> GolfGameManager \<Rightarrow> GolfGameManager" where
  "removePlayer pid s =
     (let s1 = s\<lparr>players := AList.delete pid (players s)\<rparr>
      in if gameInProgress s1 \<and>
            (case getCurrentPlayer s1 of None \<Rightarrow> False | Some cur \<Rightarrow> player cur = pid)
         then nextPlayerTurn s1 else s1)"

text \<open>\<open>Array.prototype.sort\<close> with the comparator \<open>a.totalStrokes - b.totalStrokes\<close>:
  a stable sort by total strokes.\<close>

definition calculateFinalScores :: "GolfGameManager \<Rightarrow> PlayerScore list" where
  "calculateFinalScores s = sort_key totalStrokes (map snd (players s))"



text \<open>
  \<open>endGame\<close>. The winner is the first of the final scores; with no player left that is
  \<open>undefined\<close>, and reading \<open>winner.player\<close> for the closing log line raises a
  \<open>TypeError\<close> after the state has been changed.
\<close>

definition endGame :: "GolfGameManager \<Rightarrow> GolfGameManager \<times> JsError option" where
  "endGame s =
     (if \<not> gameInProgress s then (s, None)
      else
        let s1 = s\<lparr>gameInProgress := False\<rparr>;
            s2 = modifyCurrentPlayer (\<lambda>p. p\<lparr>golfEntity := endTurn (golfEntity p)\<rparr>) s1;
            finalScores = calculateFinalScores s2
        in case finalScores of
             [] \<Rightarrow> (s2, Some (TypeError ''winner is undefined''))
           | winner # rest \<Rightarrow> (s2, None))"


text \<open>
  \<open>_handleBallInHole\<close>. The score is recorded first; the message then reads
  \<open>hole.par\<close>, which raises when the hole is \<open>undefined\<close>; otherwise the timeout that
  starts the next hole is set.
\<close>

definition handleBallInHole :: "GolfGameManager \<Rightarrow> GolfGameManager \<times> JsError option" where
  "handleBallInHole s =
     (if \<not> gameInProgress s then (s, None)
      else
        case getCurrentPlayer s of
          None \<Rightarrow> (s, None)
        | Some currentPlayer \<Rightarrow>
            let n = getScore (golfEntity currentPlayer);
                s1 = modifyCurrentPlayer
                       (\<lambda>p. p\<lparr>strokes := arraySet (strokes p) (currentHole s) n,
                               totalStrokes := totalStrokes p + n\<rparr>) s
            in if \<not> currentHole s < length (holes s)
               then (s1, Some (TypeError ''hole is undefined''))
               else (s1\<lparr>timers := timers s1 @ [NextHole]\<rparr>, None))"

definition handleWaterHazard :: "GolfGameManager \<Rightarrow> GolfGameManager \<times> JsError option" where
  "handleWaterHazard s =
     (case getCurrentPlayer s of
        None \<Rightarrow> (s, None)
      | Some currentPlayer \<Rightarrow>
          let s1 = modifyCurrentPlayer
                     (\<lambda>p. p\<lparr>golfEntity := (golfEntity p)\<lparr>shotCount := shotCount (golfEntity p) + 1\<rparr>\<rparr>) s
          in case golfBall s1 of
               None \<Rightarrow> (s1, None)
             | Some ball \<Rightarrow>
                 if \<not> currentHole s1 < length (holes s1)
                 then (s1, Some (TypeError ''hole is undefined''))
                 else
                   let hole = holes s1 ! currentHole s1
                   in (s1\<lparr>balls := onBall ball (resetToPosition (teePosition hole)) (balls s1)\<rparr>,
                       None))"

text \<open>What each pending timeout does when it fires.\<close>

definition fireTimer :: "Timer \<Rightarrow> GolfGameManager \<Rightarrow> GolfGameManager \<times> JsError option" where
  "fireTimer t s =
     (case t of
        ShotSettled \<Rightarrow> (if \<not> ballMoving s then nextPlayerTurn s else s, None)
      | RetryNextTurn \<Rightarrow> (nextPlayerTurn s, None)
      | NextHole \<Rightarrow> startHole (currentHole s + 1) s)"

text \<open>
  A controller tick of the entity of the \<open>j\<close>-th registered player: the entity's
  listener runs on the shared ball store, and the manager's \<open>golf-shot\<close> listener sets
  one settle timeout for each shot event.
\<close>

definition playerInput ::
  "nat \<Rightarrow> PlayerInput \<Rightarrow> Vector3Like \<Rightarrow> GolfGameManager \<Rightarrow> GolfGameManager \<times> nat" where
  "playerInput j input facing s =
     (if \<not> j < length (players s) then (s, 0)
      else
        case tickWithPlayerInput input facing (golfEntity (snd (players s ! j))) (balls s) of
          (e, bs, shots) \<Rightarrow>
            (s\<lparr>players := (players s)[j := (fst (players s ! j),
                                             (snd (players s ! j))\<lparr>golfEntity := e\<rparr>)],
               balls := bs,
               timers := timers s @ replicate shots ShotSettled\<rparr>, shots))"

section \<open>The server's event wiring (index.ts) and the runtime's events\<close>

text \<open>
  \<open>index.ts\<close> creates one entity for each joining player, with \<open>maxPower: 100\<close>, spawns
  it behind the first tee and registers it with the manager; a leaving player is removed
  from the manager.
\<close>

definition joinedWorld :: "string \<Rightarrow> GolfGameManager \<Rightarrow> GolfGameManager" where
  "joinedWorld pid s =
     (let golfPlayerEntity = newGolfPlayer (Some 100);
          spawned = spawnPlayer (Vec3 0 3 (-30)) golfPlayerEntity
      in addPlayer pid spawned s)"

definition leftWorld :: "string \<Rightarrow> GolfGameManager \<Rightarrow> GolfGameManager" where
  "leftWorld pid s = removePlayer pid s"

text \<open>
  Everything that can happen to a running server, one callback at a time: players join
  and leave, the two chat commands, the two ball events, a controller tick of a
  registered entity, a pending timeout firing, and the physics engine moving the
  manager's ball. A callback that raises leaves the state as it was when it raised.
\<close>

datatype Event =
    JoinedWorld string
  | LeftWorld string
  | CmdStartGolf
  | CmdEndGolf
  | BallInHole
  | BallInWater
  | ControllerTick nat PlayerInput Vector3Like
  | TimerFires nat
  | BallPhysics Vector3Like Vector3Like Vector3Like

definition removeTimer :: "nat \<Rightarrow> Timer list \<Rightarrow> Timer list" where
  "removeTimer k ts = take k ts @ drop (Suc k) ts"

definition ballPhysics ::
  "Vector3Like \<Rightarrow> Vector3Like \<Rightarrow> Vector3Like \<Rightarrow> GolfBallEntity \<Rightarrow> GolfBallEntity" where
  "ballPhysics pos vel ang b =
     (if isSpawned b
      then b\<lparr>position := pos, linearVelocity := vel, angularVelocity := ang\<rparr> else b)"

fun step :: "Event \<Rightarrow> GolfGameManager \<Rightarrow> GolfGameManager" where
  "step (JoinedWorld pid) s = joinedWorld pid s"
| "step (LeftWorld pid) s = leftWorld pid s"
| "step CmdStartGolf s = fst (startGame s)"
| "step CmdEndGolf s = fst (endGame s)"
| "step BallInHole s = fst (handleBallInHole s)"
| "step BallInWater s = fst (handleWaterHazard s)"
| "step (ControllerTick j input facing) s = fst (playerInput j input facing s)"
| "step (TimerFires k) s =
     (if k < length (timers s)
      then fst (fireTimer (timers s ! k) (s\<lparr>timers := removeTimer k (timers s)\<rparr>))
      else s)"
| "step (BallPhysics pos vel ang) s =
     (case golfBall s of
        None \<Rightarrow> s
      | Some ball \<Rightarrow> s\<lparr>balls := onBall ball (ballPhysics pos vel ang) (balls s)\<rparr>)"

definition run :: "Event list \<Rightarrow> GolfGameManager \<Rightarrow> GolfGameManager" where
  "run evs s = fold step evs s"

section \<open>Predicates of the claims\<close>

text \<open>The power meter is within its range.\<close>

definition powerInRange :: "GolfPlayerEntity \<Rightarrow> bool" where
  "powerInRange e = (0 \<le> currentPower e \<and> currentPower e \<le> maxPower e)"

text \<open>The number of registered player entities whose turn is active.\<close>

definition activeTurns :: "GolfGameManager \<Rightarrow> nat" where
  "activeTurns s = length (filter (\<lambda>kp. isPlayerTurn (golfEntity (snd kp))) (players s))"



text \<open>The entity of the current player as it is handed the manager's ball, if there is one.\<close>

definition giveBall :: "GolfGameManager \<Rightarrow> GolfPlayerEntity \<Rightarrow> GolfPlayerEntity" where
  "giveBall s e = (case golfBall s of None \<Rightarrow> e | Some ball \<Rightarrow> setGolfBall ball e)"

definition atMostOneTurn :: "GolfGameManager \<Rightarrow> bool" where
  "atMostOneTurn s = (activeTurns s \<le> 1)"

text \<open>What the scoring claims look at: each registered player's per-hole strokes and total.\<close>

definition scoreView :: "GolfGameManager \<Rightarrow> (nat option list \<times> nat) list" where
  "scoreView s = map (\<lambda>kp. (strokes (snd kp), totalStrokes (snd kp))) (players s)"



text \<open>The events of a player's turn: controller ticks, water hazards and the ball moving.\<close>

fun withinTurn :: "Event \<Rightarrow> bool" where
  "withinTurn (ControllerTick j input facing) = True"
| "withinTurn BallInWater = True"
| "withinTurn (BallPhysics pos vel ang) = True"
| "withinTurn ev = False"

text \<open>The shot events of the current player's entity and the water penalties along a
  sequence of events.\<close>

fun strokesTaken :: "Event list \<Rightarrow> GolfGameManager \<Rightarrow> nat" where
  "strokesTaken [] s = 0"
| "strokesTaken (ev # evs) s =
     (case ev of
        ControllerTick j input facing \<Rightarrow>
          if currentPlayerIndex s = Some j then snd (playerInput j input facing s) else 0
      | BallInWater \<Rightarrow> if getCurrentPlayer s = None then 0 else 1
      | _ \<Rightarrow> 0)
     + strokesTaken evs (step ev s)"

text \<open>The shot count of the current player's entity.\<close>

definition currentShotCount :: "GolfGameManager \<Rightarrow> nat" where
  "currentShotCount s =
     (case getCurrentPlayer s of None \<Rightarrow> 0 | Some p \<Rightarrow> shotCount (golfEntity p))"

text \<open>What stays fixed while the current player plays: who is current, on which hole, and
  the recorded scores.\<close>

definition turnFrame :: "GolfGameManager \<Rightarrow> nat option \<times> nat \<times> nat \<times> bool \<times> (nat option list \<times> nat) list" where
  "turnFrame s = (currentPlayerIndex s, length (players s), currentHole s, gameInProgress s,
                  scoreView s)"

text \<open>
  What holds of every registered entity of the running server: it was created with
  \<open>maxPower: 100\<close>, its power is within range and it has been spawned.
\<close>

definition entitySound :: "GolfPlayerEntity \<Rightarrow> bool" where
  "entitySound e = (maxPower e = 100 \<and> powerInRange e \<and> inWorld e)"

definition entitiesSound :: "GolfGameManager \<Rightarrow> bool" where
  "entitiesSound s = list_all (\<lambda>kp. entitySound (golfEntity (snd kp))) (players s)"

text \<open>
  What holds of the course and the ball of the running server: the course has holes, the
  current hole is one of them, and the manager's ball, once created, is spawned.
\<close>

definition courseReady :: "GolfGameManager \<Rightarrow> bool" where
  "courseReady s =
     (holes s \<noteq> [] \<and> currentHole s < length (holes s)
      \<and> (case golfBall s of
            None \<Rightarrow> True
          | Some ball \<Rightarrow> ball < length (balls s) \<and> isSpawned (balls s ! ball)))"

section \<open>Concrete scenarios\<close>

text \<open>A player in mid-charge at half power, holding ball 0, and a ball placed on the
  first tee.\<close>

definition chargingPlayer :: GolfPlayerEntity where
  "chargingPlayer = (newGolfPlayer None)\<lparr>isPlayerTurn := True, isAiming := True, isCharging := True,
      currentPower := 50, currentBall := Some 0, inWorld := True\<rparr>"

definition teedBall :: GolfBallEntity where
  "teedBall = spawnBall (Vec3 (-10) 2 0) newGolfBall"

text \<open>Two players join and the game is started.\<close>

definition twoPlayerGame :: GolfGameManager where
  "twoPlayerGame = run [JoinedWorld ''alice'', JoinedWorld ''bob'', CmdStartGolf] newManager"

text \<open>The two-player game after the physics engine has moved the ball off the tee.\<close>

definition driftedGame :: GolfGameManager where
  "driftedGame = step (BallPhysics (Vec3 3 1 2) (Vec3 1 0 0) (Vec3 0 0 1)) twoPlayerGame"

text \<open>
  One player plays the default course: on each hole the charge key is pressed and
  released (one shot), the ball enters the hole, and the settle timeout fires; on the
  first two holes the next-hole timeout fires as well. What is left pending is the
  next-hole timeout of the third hole.
\<close>

definition press :: "nat \<Rightarrow> Event" where
  "press j = ControllerTick j (PlayerInput True False False) (Vec3 1 0 0)"

definition release :: "nat \<Rightarrow> Event" where
  "release j = ControllerTick j (PlayerInput False False False) (Vec3 1 0 0)"

definition threeHoleEvents :: "Event list" where
  "threeHoleEvents =
     (let holeOut = [press 0, release 0, BallInHole, TimerFires 0]
      in [JoinedWorld ''alice'', CmdStartGolf] @ holeOut @ [TimerFires 0]
           @ holeOut @ [TimerFires 0] @ holeOut)"

definition lastHoleGame :: GolfGameManager where
  "lastHoleGame = run threeHoleEvents newManager"




text \<open>
  Alice has shot once, the turn has passed to Bob, Bob has shot, and the index is back
  at Alice: the state in which \<open>_nextPlayerTurn\<close> calls \<open>_startPlayerTurn\<close>. Then Alice
  shoots once more and the ball enters the hole.
\<close>

definition aliceTurnComesBack :: GolfGameManager where
  "aliceTurnComesBack =
     (run [JoinedWorld ''alice'', JoinedWorld ''bob'', CmdStartGolf,
           press 0, release 0, TimerFires 0, press 1, release 1] newManager)
       \<lparr>currentPlayerIndex := Some 0\<rparr>"

definition aliceHolesOut :: GolfGameManager where
  "aliceHolesOut =
     fst (handleBallInHole (run [press 0, release 0] (startPlayerTurn aliceTurnComesBack)))"

section \<open>Course stamping: what the loops leave in the lattice\<close>

lemma fold_stamp:
  "fold (\<lambda>a w p. if p \<in> F a then Some b else w p) as =
     (\<lambda>w p. if p \<in> (\<Union>a\<in>set as. F a) then Some (b::nat) else w p)"
proof (induction as)
  case Nil
  show ?case by (simp add: fun_eq_iff)
next
  case (Cons a as)
  show ?case by (simp add: Cons.IH fun_eq_iff)
qed

lemma setBlock_stamp:
  "(\<lambda>w. setBlock w pos b) = (\<lambda>w p. if p \<in> {pos} then Some b else w p)"
  by (simp add: setBlock_def fun_eq_iff)

lemma cond_setBlock_stamp:
  "(\<lambda>w. if c then setBlock w pos b else w) =
     (\<lambda>w p. if p \<in> (if c then {pos} else {}) then Some b else w p)"
  by (simp add: setBlock_def fun_eq_iff)

lemma fold_x_setBlock:
  "fold (\<lambda>x w. fold (\<lambda>y w. fold (\<lambda>z w. setBlock w (x, y, z) b) zs w) ys w) xs =
     (\<lambda>w p. if p \<in> (\<Union>x\<in>set xs. \<Union>y\<in>set ys. \<Union>z\<in>set zs. {(x, y, z)})
            then Some b else w p)"
  by (simp only: setBlock_stamp fold_stamp)

lemma fold_circle_x:
  "fold (\<lambda>x w. fold (\<lambda>z w. if distance x z cx cz \<le> r then setBlock w (x, cy, z) b else w) zs w) xs =
     (\<lambda>w p. if p \<in> (\<Union>x\<in>set xs. \<Union>z\<in>set zs.
                        if distance x z cx cz \<le> r then {(x, cy, z)} else {})
            then Some b else w p)"
  by (simp only: cond_setBlock_stamp fold_stamp)

lemma buildRectangle_at:
  "buildRectangle w (x1, y1, z1) (x2, y2, z2) b (x, y, z) =
     (if min x1 x2 \<le> x \<and> x \<le> max x1 x2 \<and> min y1 y2 \<le> y \<and> y \<le> max y1 y2
         \<and> min z1 z2 \<le> z \<and> z \<le> max z1 z2
      then Some b else w (x, y, z))"
  by (simp add: buildRectangle_def Let_def fold_x_setBlock)

lemma buildCircle_at:
  "buildCircle w (cx, cy, cz) r b (x, y, z) =
     (if cx - r \<le> x \<and> x \<le> cx + r \<and> cz - r \<le> z \<and> z \<le> cz + r \<and> y = cy
         \<and> distance x z cx cz \<le> real_of_int r
      then Some b else w (x, y, z))"
  by (auto simp add: buildCircle_def fold_circle_x split: if_splits)

text \<open>
  C7. \<open>buildRectangle\<close> puts the block id at exactly the lattice points between the
  componentwise minimum and maximum of its two corners and leaves every other point of
  the lattice as it was, so swapping the corners gives the same lattice; \<open>buildCircle\<close>
  puts the block id at exactly the points of the layer \<open>y = center.y\<close> that lie in the
  enclosing square and whose Euclidean distance from the centre is at most the radius.
\<close>

theorem C7_course_stamping:
  "buildRectangle w (x1, y1, z1) (x2, y2, z2) b (x, y, z) =
     (if min x1 x2 \<le> x \<and> x \<le> max x1 x2 \<and> min y1 y2 \<le> y \<and> y \<le> max y1 y2
         \<and> min z1 z2 \<le> z \<and> z \<le> max z1 z2
      then Some b else w (x, y, z))
   \<and> buildRectangle w (x1, y1, z1) (x2, y2, z2) b = buildRectangle w (x2, y2, z2) (x1, y1, z1) b
   \<and> buildCircle w (cx, cy, cz) r b (x, y, z) =
     (if cx - r \<le> x \<and> x \<le> cx + r \<and> cz - r \<le> z \<and> z \<le> cz + r \<and> y = cy
         \<and> sqrt (real_of_int ((x - cx)\<^sup>2 + (z - cz)\<^sup>2)) \<le> real_of_int r
      then Some b else w (x, y, z))"
proof -
  have swap: "buildRectangle w (x1, y1, z1) (x2, y2, z2) b
              = buildRectangle w (x2, y2, z2) (x1, y1, z1) b"
    by (simp add: buildRectangle_def Let_def min.commute max.commute)
  have circle: "distance x z cx cz = sqrt (real_of_int ((x - cx)\<^sup>2 + (z - cz)\<^sup>2))"
    by (simp add: distance_def)
  show ?thesis
    using swap buildRectangle_at [of w x1 y1 z1 x2 y2 z2 b x y z]
      buildCircle_at [of w cx cy cz r b x y z]
    by (simp only: circle simp_thms)
qed

section \<open>Physics delegation on hit\<close>

text \<open>
  C8. \<open>hit\<close> on a spawned ball hands the engine exactly one impulse, with components
  direction times force times ball mass, and changes nothing else of the ball; on a
  ball that is not spawned it hands over no impulse and leaves the ball as it was.
\<close>

theorem C8_hit_delegates_impulse:
  "hit direction force b =
     (if isSpawned b
      then b\<lparr>appliedImpulses := appliedImpulses b @
              [Vec3 (vx direction * force * ballMass b)
                    (vy direction * force * ballMass b)
                    (vz direction * force * ballMass b)]\<rparr>
      else b)"
  by (simp add: hit_def applyImpulse_def Let_def)

section \<open>The power meter\<close>

lemmas entity_defs = startTurn_def endTurn_def setGolfBall_def startCharging_def updatePower_def
  toggleAiming_def startAiming_def stopAiming_def executeShot_def tickWithPlayerInput_def
  spawnPlayer_def

lemma tick_power:
  assumes "0 \<le> maxPower e" and "powerInRange e"
  shows "maxPower (fst (tickWithPlayerInput input facing e bs)) = maxPower e
       \<and> powerInRange (fst (tickWithPlayerInput input facing e bs))"
  using assms by (simp add: powerInRange_def entity_defs Let_def split: option.splits)

lemma executeShot_power:
  assumes "0 \<le> maxPower e" and "powerInRange e"
  shows "maxPower (fst (executeShot facing e bs)) = maxPower e
       \<and> powerInRange (fst (executeShot facing e bs))"
  using assms by (simp add: powerInRange_def executeShot_def stopAiming_def Let_def split: option.splits)

lemma updatePower_power:
  assumes "0 \<le> maxPower e" and "powerInRange e"
  shows "maxPower (updatePower e) = maxPower e \<and> powerInRange (updatePower e)"
  using assms by (simp add: powerInRange_def updatePower_def Let_def)

lemma simple_methods_power:
  assumes "0 \<le> maxPower e" and "powerInRange e"
  shows "maxPower (startCharging e) = maxPower e \<and> powerInRange (startCharging e)
       \<and> maxPower (startTurn e) = maxPower e \<and> powerInRange (startTurn e)
       \<and> maxPower (endTurn e) = maxPower e \<and> powerInRange (endTurn e)
       \<and> maxPower (setGolfBall ball e) = maxPower e \<and> powerInRange (setGolfBall ball e)
       \<and> maxPower (toggleAiming e) = maxPower e \<and> powerInRange (toggleAiming e)
       \<and> maxPower (spawnPlayer pos e) = maxPower e \<and> powerInRange (spawnPlayer pos e)"
  using assms by (simp add: powerInRange_def entity_defs)

lemma power_steps:
  "(isCharging e \<longrightarrow>
      currentPower (updatePower e) = min (currentPower e + maxPower e / 120) (maxPower e))
   \<and> (isPlayerTurn e \<and> isCharging e \<and> input_sp input \<longrightarrow>
        currentPower (fst (tickWithPlayerInput input facing e bs))
          = min (currentPower e + maxPower e / 120) (maxPower e))"
  by (simp add: entity_defs Let_def)

lemma power_resets:
  "(isPlayerTurn e \<and> isCharging e \<and> \<not> input_sp input \<and> currentBall e \<noteq> None \<and> inWorld e \<longrightarrow>
        currentPower (fst (tickWithPlayerInput input facing e bs)) = 0)
   \<and> (isCharging e \<and> currentBall e \<noteq> None \<and> inWorld e \<longrightarrow>
        currentPower (fst (executeShot facing e bs)) = 0)
   \<and> currentPower (startCharging e) = 0
   \<and> currentPower (endTurn e) = 0
   \<and> currentPower (newGolfPlayer optMaxPower) = 0"
  by (auto simp add: entity_defs newGolfPlayer_def Let_def)

section \<open>Executing a shot\<close>

lemma impulses_onBall_same:
  assumes "\<And>b. appliedImpulses (m b) = appliedImpulses b"
  shows "map appliedImpulses (onBall ref m bs) = map appliedImpulses bs"
  by (simp add: onBall_def map_update assms list_update_same_conv)

lemma impulses_resetToPosition: "appliedImpulses (resetToPosition pos b) = appliedImpulses b"
  by (simp add: resetToPosition_def stopBall_def)

lemma impulses_resetBall: "map appliedImpulses (resetBall e bs) = map appliedImpulses bs"
  by (simp add: resetBall_def Let_def impulses_onBall_same impulses_resetToPosition
      split: option.splits)

lemma force_bound:
  assumes "0 \<le> p" and "p \<le> m" and "0 < (m::real)"
  shows "p / m * 50 \<le> 50"
  using assms by (simp add: pos_divide_le_eq)

lemma tick_release_shot:
  assumes "isPlayerTurn e" and "isCharging e" and "currentBall e = Some ball" and "inWorld e"
    and "\<not> input_sp input"
  shows "tickWithPlayerInput input facing e bs =
     (let e' = e\<lparr>isCharging := False, shotCount := shotCount e + 1, currentPower := 0,
                  isAiming := input_f input\<rparr>;
          bs1 = onBall ball (hit facing (currentPower e / maxPower e * 50)) bs
      in (e', if input_r input then resetBall e' bs1 else bs1, 1))"
  using assms
  by (simp add: tickWithPlayerInput_def executeShot_def shotForce_def Let_def stopAiming_def
      toggleAiming_def startAiming_def)

lemma tick_no_shot:
  assumes "\<not> isPlayerTurn e \<or> \<not> isCharging e \<or> currentBall e = None \<or> \<not> inWorld e"
  shows "snd (snd (tickWithPlayerInput input facing e bs)) = 0
       \<and> shotCount (fst (tickWithPlayerInput input facing e bs)) = shotCount e
       \<and> map appliedImpulses (fst (snd (tickWithPlayerInput input facing e bs)))
            = map appliedImpulses bs"
  using assms
  by (auto simp add: tickWithPlayerInput_def executeShot_def Let_def startCharging_def
      updatePower_def toggleAiming_def startAiming_def stopAiming_def impulses_resetBall
      split: option.splits)

section \<open>Starting a turn\<close>

lemma startPlayerTurn_frame:
  "startPlayerTurn s = s\<lparr>players := players (startPlayerTurn s)\<rparr>"
  by (simp add: startPlayerTurn_def Let_def split: option.splits)

lemma startPlayerTurn_noop:
  assumes "getCurrentPlayer s = None"
  shows "startPlayerTurn s = s"
  using assms by (simp add: startPlayerTurn_def getCurrentPlayer_def split: option.splits if_splits)

lemma startPlayerTurn_length [simp]:
  "length (players (startPlayerTurn s)) = length (players s)"
  by (simp add: startPlayerTurn_def Let_def split: option.splits)

lemma startPlayerTurn_nth:
  assumes "currentPlayerIndex s = Some i" and "i < length (players s)" and "j < length (players s)"
  shows "players (startPlayerTurn s) ! j =
           (fst (players s ! j),
            (snd (players s ! j))\<lparr>golfEntity :=
               (if j = i then startTurn (giveBall s (golfEntity (snd (players s ! j))))
                else endTurn (golfEntity (snd (players s ! j))))\<rparr>)"
  using assms
  by (simp add: startPlayerTurn_def Let_def nth_enumerate_eq giveBall_def nth_list_update
      case_prod_beta split: option.splits)

lemma startPlayerTurn_nth_fields:
  assumes "j < length (players s)"
  shows "fst (players (startPlayerTurn s) ! j) = fst (players s ! j)
       \<and> player (snd (players (startPlayerTurn s) ! j)) = player (snd (players s ! j))
       \<and> strokes (snd (players (startPlayerTurn s) ! j)) = strokes (snd (players s ! j))
       \<and> totalStrokes (snd (players (startPlayerTurn s) ! j)) = totalStrokes (snd (players s ! j))"
proof (cases "getCurrentPlayer s")
  case None
  then show ?thesis by (simp add: startPlayerTurn_noop)
next
  case (Some cur)
  then obtain i where i: "currentPlayerIndex s = Some i" "i < length (players s)"
    by (auto simp add: getCurrentPlayer_def split: option.splits if_splits)
  show ?thesis
    by (simp add: startPlayerTurn_nth [OF i assms])
qed

lemma startPlayerTurn_turns:
  assumes "currentPlayerIndex s = Some i" and "i < length (players s)" and "j < length (players s)"
  shows "isPlayerTurn (golfEntity (snd (players (startPlayerTurn s) ! j))) = (j = i)"
  by (simp add: startPlayerTurn_nth [OF assms] startTurn_def startAiming_def endTurn_def)

lemma length_filter_single:
  assumes "i < length xs" and "\<And>j. j < length xs \<Longrightarrow> P (xs ! j) = (j = i)"
  shows "length (filter P xs) = 1"
proof -
  have "{j. j < length xs \<and> P (xs ! j)} = {i}"
    using assms by auto
  then show ?thesis
    by (simp add: length_filter_conv_card)
qed

lemma activeTurns_startPlayerTurn:
  assumes "currentPlayerIndex s = Some i" and "i < length (players s)"
  shows "activeTurns (startPlayerTurn s) = 1"
  unfolding activeTurns_def
  by (rule length_filter_single [where i = i])
     (simp_all add: assms startPlayerTurn_turns [OF assms])

lemma atMostOneTurn_players:
  assumes "atMostOneTurn s" and "players s' = players s"
  shows "atMostOneTurn s'"
  using assms by (simp add: atMostOneTurn_def activeTurns_def)

lemma atMostOneTurn_startPlayerTurn:
  assumes "atMostOneTurn s"
  shows "atMostOneTurn (startPlayerTurn s)"
proof (cases "getCurrentPlayer s")
  case None
  then show ?thesis using assms by (simp add: startPlayerTurn_noop)
next
  case (Some cur)
  then obtain i where i: "currentPlayerIndex s = Some i" "i < length (players s)"
    by (auto simp add: getCurrentPlayer_def split: option.splits if_splits)
  show ?thesis
    by (simp add: atMostOneTurn_def activeTurns_startPlayerTurn [OF i])
qed

section \<open>At most one active turn\<close>

lemma filter_update_le:
  assumes "\<not> P v"
  shows "length (filter P (xs[i := v])) \<le> length (filter P xs)"
  using assms
proof (induction xs arbitrary: i)
  case Nil
  then show ?case by simp
next
  case (Cons x xs)
  then show ?case by (cases i) (auto simp add: le_SucI)
qed

lemma filter_update_same:
  assumes "i < length xs" and "P v = P (xs ! i)"
  shows "length (filter P (xs[i := v])) = length (filter P xs)"
  using assms
proof (induction xs arbitrary: i)
  case Nil
  then show ?case by simp
next
  case (Cons x xs)
  then show ?case by (cases i) auto
qed

lemma filter_delete_le:
  "length (filter P (AList.delete k xs)) \<le> length (filter P xs)"
  by (induction xs) (auto simp add: le_SucI)

lemma filter_alist_update_le:
  assumes "\<not> P (k, v)"
  shows "length (filter P (AList.update k v xs)) \<le> length (filter P xs)"
  using assms by (induction xs) (auto simp add: le_SucI)

lemma activeTurns_modifyCurrentPlayer_same:
  assumes "\<And>p. isPlayerTurn (golfEntity (m p)) = isPlayerTurn (golfEntity p)"
  shows "activeTurns (modifyCurrentPlayer m s) = activeTurns s"
  by (simp add: activeTurns_def modifyCurrentPlayer_def filter_update_same assms
      split: option.splits)

lemma activeTurns_modifyCurrentPlayer_endTurn:
  "activeTurns (modifyCurrentPlayer (\<lambda>p. p\<lparr>golfEntity := endTurn (golfEntity p)\<rparr>) s)
     \<le> activeTurns s"
  by (simp add: activeTurns_def modifyCurrentPlayer_def filter_update_le endTurn_def
      split: option.splits)

lemma atMostOneTurn_nextPlayerTurn:
  assumes "atMostOneTurn s"
  shows "atMostOneTurn (nextPlayerTurn s)"
proof (cases "ballMoving s")
  case True
  have "atMostOneTurn (s\<lparr>timers := timers s @ [RetryNextTurn]\<rparr>)"
    by (rule atMostOneTurn_players [OF assms]) simp
  then show ?thesis using True by (simp add: nextPlayerTurn_def)
next
  case False
  have "atMostOneTurn (s\<lparr>currentPlayerIndex := nextIndex (currentPlayerIndex s) (length (players s))\<rparr>)"
    by (rule atMostOneTurn_players [OF assms]) simp
  then show ?thesis
    using False by (simp add: nextPlayerTurn_def atMostOneTurn_startPlayerTurn)
qed

lemma atMostOneTurn_removePlayer:
  assumes "atMostOneTurn s"
  shows "atMostOneTurn (removePlayer pid s)"
proof -
  have "activeTurns (s\<lparr>players := AList.delete pid (players s)\<rparr>) \<le> activeTurns s"
    by (simp add: activeTurns_def filter_delete_le)
  then have "atMostOneTurn (s\<lparr>players := AList.delete pid (players s)\<rparr>)"
    using assms by (simp add: atMostOneTurn_def)
  then show ?thesis
    by (simp add: removePlayer_def Let_def atMostOneTurn_nextPlayerTurn)
qed

lemma atMostOneTurn_startHole:
  assumes "atMostOneTurn s"
  shows "atMostOneTurn (fst (startHole n s))"
proof (cases "n \<ge> length (holes s)")
  case True
  then show ?thesis using assms by (simp add: startHole_def)
next
  case False
  have "atMostOneTurn (startPlayerTurn s')" if "players s' = players s" for s'
    by (rule atMostOneTurn_startPlayerTurn, rule atMostOneTurn_players [OF assms that])
  then show ?thesis
    using False
    by (simp add: startHole_def Let_def split: option.splits)
qed

lemma atMostOneTurn_startGame:
  assumes "atMostOneTurn s"
  shows "atMostOneTurn (fst (startGame s))"
proof (cases "length (players s) = 0")
  case True
  then show ?thesis using assms by (simp add: startGame_def)
next
  case False
  have "filter (\<lambda>kp. isPlayerTurn (golfEntity (snd kp)))
          (map (\<lambda>(k, p). (k, p\<lparr>strokes := [], totalStrokes := 0, scoreCurrentHole := 0\<rparr>)) ps)
        = map (\<lambda>(k, p). (k, p\<lparr>strokes := [], totalStrokes := 0, scoreCurrentHole := 0\<rparr>))
            (filter (\<lambda>kp. isPlayerTurn (golfEntity (snd kp))) ps)"
    for ps :: "(string \<times> PlayerScore) list"
    by (induction ps) auto
  then have "atMostOneTurn (createGolfBall (s\<lparr>gameInProgress := True, currentHole := 0,
      currentPlayerIndex := Some 0,
      players := map (\<lambda>(k, p). (k, p\<lparr>strokes := [], totalStrokes := 0, scoreCurrentHole := 0\<rparr>))
                  (players s)\<rparr>))"
    using assms
    by (simp add: atMostOneTurn_def activeTurns_def createGolfBall_def Let_def split: option.splits)
  then show ?thesis
    using False by (simp add: startGame_def Let_def atMostOneTurn_startHole)
qed

lemma atMostOneTurn_endGame:
  assumes "atMostOneTurn s"
  shows "atMostOneTurn (fst (endGame s))"
proof -
  have "activeTurns (modifyCurrentPlayer (\<lambda>p. p\<lparr>golfEntity := endTurn (golfEntity p)\<rparr>)
          (s\<lparr>gameInProgress := False\<rparr>)) \<le> activeTurns (s\<lparr>gameInProgress := False\<rparr>)"
    by (rule activeTurns_modifyCurrentPlayer_endTurn)
  also have "\<dots> = activeTurns s"
    by (simp add: activeTurns_def)
  finally have "atMostOneTurn (modifyCurrentPlayer (\<lambda>p. p\<lparr>golfEntity := endTurn (golfEntity p)\<rparr>)
          (s\<lparr>gameInProgress := False\<rparr>))"
    using assms by (simp add: atMostOneTurn_def)
  then show ?thesis
    using assms by (simp add: endGame_def Let_def split: list.splits)
qed

lemma atMostOneTurn_joinedWorld:
  assumes "atMostOneTurn s"
  shows "atMostOneTurn (joinedWorld pid s)"
proof -
  have "activeTurns (joinedWorld pid s) \<le> activeTurns s"
    by (simp add: activeTurns_def joinedWorld_def addPlayer_def Let_def filter_alist_update_le
        spawnPlayer_def newGolfPlayer_def)
  then show ?thesis using assms by (simp add: atMostOneTurn_def)
qed

lemma atMostOneTurn_handleBallInHole:
  assumes "atMostOneTurn s"
  shows "atMostOneTurn (fst (handleBallInHole s))"
proof -
  have m: "atMostOneTurn (modifyCurrentPlayer m s)"
    if "\<And>p. isPlayerTurn (golfEntity (m p)) = isPlayerTurn (golfEntity p)" for m
    using assms that by (simp add: atMostOneTurn_def activeTurns_modifyCurrentPlayer_same)
  have "atMostOneTurn (modifyCurrentPlayer m s\<lparr>timers := ts\<rparr>)"
    if "\<And>p. isPlayerTurn (golfEntity (m p)) = isPlayerTurn (golfEntity p)" for m ts
    by (rule atMostOneTurn_players [OF m [OF that]]) simp
  then show ?thesis
    using assms m
    by (simp add: handleBallInHole_def Let_def split: option.splits)
qed

lemma atMostOneTurn_handleWaterHazard:
  assumes "atMostOneTurn s"
  shows "atMostOneTurn (fst (handleWaterHazard s))"
proof -
  have m: "atMostOneTurn (modifyCurrentPlayer m s)"
    if "\<And>p. isPlayerTurn (golfEntity (m p)) = isPlayerTurn (golfEntity p)" for m
    using assms that by (simp add: atMostOneTurn_def activeTurns_modifyCurrentPlayer_same)
  have "atMostOneTurn (modifyCurrentPlayer m s\<lparr>balls := bs\<rparr>)"
    if "\<And>p. isPlayerTurn (golfEntity (m p)) = isPlayerTurn (golfEntity p)" for m bs
    by (rule atMostOneTurn_players [OF m [OF that]]) simp
  then show ?thesis
    using assms m
    by (simp add: handleWaterHazard_def Let_def split: option.splits)
qed

lemma tick_isPlayerTurn:
  "isPlayerTurn (fst (tickWithPlayerInput input facing e bs)) = isPlayerTurn e"
  by (simp add: tickWithPlayerInput_def executeShot_def Let_def startCharging_def
      updatePower_def toggleAiming_def startAiming_def stopAiming_def split: option.splits)

lemma atMostOneTurn_playerInput:
  assumes "atMostOneTurn s"
  shows "atMostOneTurn (fst (playerInput j input facing s))"
proof (cases "j < length (players s)")
  case False
  then show ?thesis using assms by (simp add: playerInput_def)
next
  case True
  have "activeTurns (fst (playerInput j input facing s)) = activeTurns s"
    using True tick_isPlayerTurn [of input facing "golfEntity (snd (players s ! j))" "balls s"]
    by (simp add: playerInput_def activeTurns_def filter_update_same case_prod_beta)
  then show ?thesis using assms by (simp add: atMostOneTurn_def)
qed

lemma atMostOneTurn_fireTimer:
  assumes "atMostOneTurn s"
  shows "atMostOneTurn (fst (fireTimer t s))"
  using assms
  by (cases t) (simp_all add: fireTimer_def atMostOneTurn_nextPlayerTurn atMostOneTurn_startHole)

lemma atMostOneTurn_step:
  assumes "atMostOneTurn s"
  shows "atMostOneTurn (step ev s)"
proof (cases ev)
  case (TimerFires k)
  have "atMostOneTurn (s\<lparr>timers := removeTimer k (timers s)\<rparr>)"
    by (rule atMostOneTurn_players [OF assms]) simp
  then show ?thesis
    using assms TimerFires by (simp add: atMostOneTurn_fireTimer)
next
  case (BallPhysics pos vel ang)
  have "atMostOneTurn (s\<lparr>balls := bs\<rparr>)" for bs
    by (rule atMostOneTurn_players [OF assms]) simp
  then show ?thesis
    using assms BallPhysics by (simp split: option.splits)
qed (simp_all add: assms leftWorld_def atMostOneTurn_joinedWorld atMostOneTurn_removePlayer
      atMostOneTurn_startGame atMostOneTurn_endGame atMostOneTurn_handleBallInHole
      atMostOneTurn_handleWaterHazard atMostOneTurn_playerInput)

lemma atMostOneTurn_run:
  assumes "atMostOneTurn s"
  shows "atMostOneTurn (run evs s)"
  using assms unfolding run_def
  by (induction evs arbitrary: s) (simp_all add: atMostOneTurn_step)

lemma atMostOneTurn_newManager: "atMostOneTurn newManager"
  by (simp add: atMostOneTurn_def activeTurns_def newManager_def)

section \<open>Scenarios and the single active turn\<close>

lemmas manager_defs = joinedWorld_def leftWorld_def addPlayer_def removePlayer_def startGame_def
  startHole_def startPlayerTurn_def nextPlayerTurn_def nextIndex_def createGolfBall_def
  getCurrentPlayer_def modifyCurrentPlayer_def endGame_def handleBallInHole_def
  handleWaterHazard_def fireTimer_def playerInput_def ballMoving_def

lemmas scenario_defs = run_def manager_defs newManager_def setupDefaultCourse_def
  spawnPlayer_def newGolfPlayer_def newGolfBall_def Let_def enumerate_eq_zip
  startTurn_def endTurn_def startAiming_def setGolfBall_def onBall_def spawnBall_def

lemma endGame_ends_current:
  assumes "gameInProgress s" and "currentPlayerIndex s = Some i" and "i < length (players s)"
  shows "\<not> isPlayerTurn (golfEntity (snd (players (fst (endGame s)) ! i)))
       \<and> \<not> gameInProgress (fst (endGame s))"
  using assms
  by (simp add: endGame_def Let_def modifyCurrentPlayer_def endTurn_def split: list.splits)

text \<open>
  C9. In every state the server can reach from a fresh manager, by any sequence of
  events, at most one registered player entity has an active turn. The property is kept
  by \<open>startGame\<close>, by a turn transfer, by \<open>removePlayer\<close>, by \<open>endGame\<close> and by every
  other event. Starting the current player's turn ends the turn of every other
  registered player and leaves the current player's turn active; ending a game in
  progress ends the current player's turn.
\<close>

theorem C9_single_active_turn:
  "atMostOneTurn (run evs newManager)
   \<and> (atMostOneTurn s \<longrightarrow>
        atMostOneTurn (fst (startGame s)) \<and> atMostOneTurn (nextPlayerTurn s)
        \<and> atMostOneTurn (removePlayer pid s) \<and> atMostOneTurn (fst (endGame s))
        \<and> atMostOneTurn (startPlayerTurn s) \<and> atMostOneTurn (step ev s))
   \<and> (currentPlayerIndex s = Some i \<and> i < length (players s) \<longrightarrow>
        (\<forall>j. j < length (players s) \<longrightarrow>
           isPlayerTurn (golfEntity (snd (players (startPlayerTurn s) ! j))) = (j = i)))
   \<and> (gameInProgress s \<and> currentPlayerIndex s = Some i \<and> i < length (players s) \<longrightarrow>
        \<not> isPlayerTurn (golfEntity (snd (players (fst (endGame s)) ! i)))
        \<and> \<not> gameInProgress (fst (endGame s)))"
proof (intro conjI impI allI)
  show "atMostOneTurn (run evs newManager)"
    by (rule atMostOneTurn_run [OF atMostOneTurn_newManager])
next
  fix j
  assume "currentPlayerIndex s = Some i \<and> i < length (players s)" and "j < length (players s)"
  then show "isPlayerTurn (golfEntity (snd (players (startPlayerTurn s) ! j))) = (j = i)"
    by (simp add: startPlayerTurn_turns)
next
  assume "gameInProgress s \<and> currentPlayerIndex s = Some i \<and> i < length (players s)"
  then show "\<not> isPlayerTurn (golfEntity (snd (players (fst (endGame s)) ! i)))"
    and "\<not> gameInProgress (fst (endGame s))"
    by (simp_all add: endGame_ends_current)
qed (simp_all add: atMostOneTurn_startGame atMostOneTurn_nextPlayerTurn atMostOneTurn_removePlayer
      atMostOneTurn_endGame atMostOneTurn_startPlayerTurn atMostOneTurn_step)

lemma twoPlayerGame_facts:
  "currentPlayerIndex twoPlayerGame = Some 0 \<and> length (players twoPlayerGame) = 2
   \<and> gameInProgress twoPlayerGame"
  by (simp add: twoPlayerGame_def scenario_defs)

theorem C9_single_active_turn_witness:
  "atMostOneTurn twoPlayerGame
   \<and> currentPlayerIndex twoPlayerGame = Some 0 \<and> length (players twoPlayerGame) = 2
   \<and> gameInProgress twoPlayerGame
   \<and> atMostOneTurn (nextPlayerTurn twoPlayerGame)
   \<and> atMostOneTurn (removePlayer ''alice'' twoPlayerGame)
   \<and> atMostOneTurn (fst (endGame twoPlayerGame))
   \<and> isPlayerTurn (golfEntity (snd (players (startPlayerTurn twoPlayerGame) ! 0)))
   \<and> \<not> isPlayerTurn (golfEntity (snd (players (startPlayerTurn twoPlayerGame) ! 1)))
   \<and> \<not> isPlayerTurn (golfEntity (snd (players (fst (endGame twoPlayerGame)) ! 0)))"
proof -
  have one: "atMostOneTurn twoPlayerGame"
    using C9_single_active_turn
      [of "[JoinedWorld ''alice'', JoinedWorld ''bob'', CmdStartGolf]" twoPlayerGame]
    by (simp add: twoPlayerGame_def)
  show ?thesis
    using one twoPlayerGame_facts
      C9_single_active_turn [of "[]" twoPlayerGame "''alice''" CmdEndGolf 0]
    by simp
qed

section \<open>Round robin\<close>



lemma startPlayerTurn_fields [simp]:
  "currentPlayerIndex (startPlayerTurn s) = currentPlayerIndex s"
  "golfBall (startPlayerTurn s) = golfBall s"
  "balls (startPlayerTurn s) = balls s"
  "timers (startPlayerTurn s) = timers s"
  "holes (startPlayerTurn s) = holes s"
  "currentHole (startPlayerTurn s) = currentHole s"
  "gameInProgress (startPlayerTurn s) = gameInProgress s"
  by (simp_all add: startPlayerTurn_def Let_def split: option.splits)








section \<open>The water hazard\<close>

lemma handleWaterHazard_players:
  assumes "currentPlayerIndex s = Some i" and "i < length (players s)"
  shows "players (fst (handleWaterHazard s)) =
           (players s)[i := (fst (players s ! i),
              (snd (players s ! i))\<lparr>golfEntity :=
                 (golfEntity (snd (players s ! i)))
                   \<lparr>shotCount := shotCount (golfEntity (snd (players s ! i))) + 1\<rparr>\<rparr>)]"
  using assms
  by (simp add: handleWaterHazard_def getCurrentPlayer_def modifyCurrentPlayer_def Let_def
      split: option.splits)

lemma handleWaterHazard_ball:
  assumes "currentPlayerIndex s = Some i" and "i < length (players s)"
    and "golfBall s = Some ball" and "ball < length (balls s)" and "isSpawned (balls s ! ball)"
    and "currentHole s < length (holes s)"
  shows "snd (handleWaterHazard s) = None
       \<and> balls (fst (handleWaterHazard s)) =
           (balls s)[ball := (balls s ! ball)\<lparr>linearVelocity := zeroVec,
              angularVelocity := zeroVec, isRolling := False,
              position := teePosition (holes s ! currentHole s)\<rparr>]"
  using assms
  by (simp add: handleWaterHazard_def getCurrentPlayer_def modifyCurrentPlayer_def Let_def
      onBall_def resetToPosition_def stopBall_def split: option.splits)

section \<open>Hole progression\<close>

lemma isMoving_code [code]:
  "isMoving b =
     (let velocity = linearVelocity b
      in (vx velocity)\<^sup>2 + (vy velocity)\<^sup>2 + (vz velocity)\<^sup>2 > 1 / 10000)"
proof -
  have "(1 / 100 < sqrt a) = (1 / 10000 < a)" for a :: real
  proof -
    have "sqrt (1 / 10000) = 1 / 100"
      by (rule real_sqrt_unique) (simp_all add: power2_eq_square)
    then have "(1 / 100 < sqrt a) = (sqrt (1 / 10000) < sqrt a)" by (simp only:)
    also have "\<dots> = (1 / 10000 < a)" by (rule real_sqrt_less_iff)
    finally show ?thesis .
  qed
  then show ?thesis by (simp add: isMoving_def Let_def)
qed

lemma lastHoleGame_facts:
  "gameInProgress lastHoleGame \<and> currentHole lastHoleGame = 2
   \<and> length (holes lastHoleGame) = 3 \<and> timers lastHoleGame = [NextHole]
   \<and> map (strokes \<circ> snd) (players lastHoleGame) = [[Some 1, Some 1, Some 1]]
   \<and> map (\<lambda>kp. isPlayerTurn (golfEntity (snd kp))) (players lastHoleGame) = [True]"
  by code_simp

text \<open>
  C1, on the last hole. After the third hole of the default course is completed, the
  pending next-hole timeout calls \<open>_startHole(3)\<close>, which raises the \<open>TypeError\<close> of the
  undefined \<open>_endGame\<close>: the manager is left as it was, the game still in progress on
  hole index 2 with the player's turn active.
\<close>

theorem C1_last_hole_does_not_end_game:
  "gameInProgress lastHoleGame \<and> currentHole lastHoleGame = 2
   \<and> length (holes lastHoleGame) = 3 \<and> timers lastHoleGame = [NextHole]
   \<and> map (strokes \<circ> snd) (players lastHoleGame) = [[Some 1, Some 1, Some 1]]
   \<and> snd (fireTimer NextHole lastHoleGame) = Some (TypeError ''this._endGame is not a function'')
   \<and> fst (fireTimer NextHole lastHoleGame) = lastHoleGame
   \<and> gameInProgress (step (TimerFires 0) lastHoleGame)
   \<and> currentHole (step (TimerFires 0) lastHoleGame) = 2
   \<and> map (\<lambda>kp. isPlayerTurn (golfEntity (snd kp))) (players (step (TimerFires 0) lastHoleGame))
       = [True]"
  using lastHoleGame_facts
  by (simp add: fireTimer_def startHole_def removeTimer_def)

section \<open>Scoring\<close>



lemma scoreView_updates [simp]:
  "scoreView (s\<lparr>currentPlayerIndex := idx\<rparr>) = scoreView s"
  "scoreView (s\<lparr>currentHole := h\<rparr>) = scoreView s"
  "scoreView (s\<lparr>gameInProgress := g\<rparr>) = scoreView s"
  "scoreView (s\<lparr>golfBall := gb\<rparr>) = scoreView s"
  "scoreView (s\<lparr>balls := bs\<rparr>) = scoreView s"
  "scoreView (s\<lparr>timers := ts\<rparr>) = scoreView s"
  by (simp_all add: scoreView_def)

lemma scoreView_startPlayerTurn: "scoreView (startPlayerTurn s) = scoreView s"
  unfolding scoreView_def
  by (rule nth_equalityI) (simp_all add: startPlayerTurn_nth_fields)


lemma scoreView_modifyCurrentPlayer:
  assumes "\<And>p. strokes (m p) = strokes p" and "\<And>p. totalStrokes (m p) = totalStrokes p"
  shows "scoreView (modifyCurrentPlayer m s) = scoreView s"
proof (cases "getCurrentPlayer s")
  case None
  then have "modifyCurrentPlayer m s = s"
    by (simp add: modifyCurrentPlayer_def getCurrentPlayer_def split: option.splits if_splits)
  then show ?thesis by simp
next
  case (Some cur)
  then obtain i where i: "currentPlayerIndex s = Some i" "i < length (players s)"
    by (auto simp add: getCurrentPlayer_def split: option.splits if_splits)
  have "map (\<lambda>kp. (strokes (snd kp), totalStrokes (snd kp)))
          ((players s)[i := (fst (players s ! i), m (snd (players s ! i)))])
        = map (\<lambda>kp. (strokes (snd kp), totalStrokes (snd kp))) (players s)"
    using i by (simp add: map_update assms list_update_same_conv)
  then show ?thesis
    using i by (simp add: scoreView_def modifyCurrentPlayer_def)
qed




lemma scoreView_handleWaterHazard: "scoreView (fst (handleWaterHazard s)) = scoreView s"
proof -
  let ?m = "\<lambda>p. p\<lparr>golfEntity := (golfEntity p)\<lparr>shotCount := shotCount (golfEntity p) + 1\<rparr>\<rparr>"
  have m: "scoreView (modifyCurrentPlayer ?m s) = scoreView s"
    by (rule scoreView_modifyCurrentPlayer) simp_all
  show ?thesis
    using m by (simp add: handleWaterHazard_def Let_def split: option.splits)
qed

lemma scoreView_playerInput: "scoreView (fst (playerInput j input facing s)) = scoreView s"
proof (cases "j < length (players s)")
  case False
  then show ?thesis by (simp add: playerInput_def)
next
  case True
  have "map (\<lambda>kp. (strokes (snd kp), totalStrokes (snd kp)))
          ((players s)[j := (fst (players s ! j), (snd (players s ! j))\<lparr>golfEntity := e\<rparr>)])
        = map (\<lambda>kp. (strokes (snd kp), totalStrokes (snd kp))) (players s)" for e
    using True by (simp add: map_update list_update_same_conv)
  then show ?thesis
    using True by (simp add: playerInput_def scoreView_def case_prod_beta)
qed


lemma list_all_alist_update:
  assumes "list_all P xs" and "P (k, v)"
  shows "list_all P (AList.update k v xs)"
  using assms by (induction xs) auto




lemma list_all_update:
  assumes "list_all P xs" and "P v"
  shows "list_all P (xs[i := v])"
  using assms by (induction xs arbitrary: i) (auto split: nat.splits)











section \<open>Strokes since the turn started\<close>

lemma tick_shotCount:
  "shotCount (fst (tickWithPlayerInput input facing e bs))
     = shotCount e + snd (snd (tickWithPlayerInput input facing e bs))"
  by (simp add: tickWithPlayerInput_def executeShot_def Let_def startCharging_def
      updatePower_def toggleAiming_def startAiming_def stopAiming_def split: option.splits)

lemma playerInput_turn:
  assumes "currentPlayerIndex s = Some i" and "i < length (players s)"
  shows "turnFrame (fst (playerInput j input facing s)) = turnFrame s
       \<and> currentShotCount (fst (playerInput j input facing s))
           = currentShotCount s + (if j = i then snd (playerInput j input facing s) else 0)"
proof (cases "j < length (players s)")
  case False
  then show ?thesis using assms by (auto simp add: playerInput_def)
next
  case True
  have sv: "scoreView (fst (playerInput j input facing s)) = scoreView s"
    by (rule scoreView_playerInput)
  have rest: "currentPlayerIndex (fst (playerInput j input facing s)) = currentPlayerIndex s
      \<and> length (players (fst (playerInput j input facing s))) = length (players s)
      \<and> currentHole (fst (playerInput j input facing s)) = currentHole s
      \<and> gameInProgress (fst (playerInput j input facing s)) = gameInProgress s"
    using True by (simp add: playerInput_def case_prod_beta)
  have cnt: "currentShotCount (fst (playerInput j input facing s))
           = currentShotCount s + (if j = i then snd (playerInput j input facing s) else 0)"
    using True assms tick_shotCount [of input facing "golfEntity (snd (players s ! i))" "balls s"]
    by (simp add: playerInput_def case_prod_beta currentShotCount_def getCurrentPlayer_def
        nth_list_update)
  show ?thesis
    using sv rest cnt by (simp add: turnFrame_def)
qed

lemma handleWaterHazard_turn:
  assumes "currentPlayerIndex s = Some i" and "i < length (players s)"
  shows "turnFrame (fst (handleWaterHazard s)) = turnFrame s
       \<and> currentShotCount (fst (handleWaterHazard s)) = currentShotCount s + 1"
proof -
  have sv: "scoreView (fst (handleWaterHazard s)) = scoreView s"
    by (rule scoreView_handleWaterHazard)
  have rest: "currentPlayerIndex (fst (handleWaterHazard s)) = currentPlayerIndex s
      \<and> length (players (fst (handleWaterHazard s))) = length (players s)
      \<and> currentHole (fst (handleWaterHazard s)) = currentHole s
      \<and> gameInProgress (fst (handleWaterHazard s)) = gameInProgress s
      \<and> currentShotCount (fst (handleWaterHazard s)) = currentShotCount s + 1"
    using assms
    by (simp add: handleWaterHazard_def Let_def modifyCurrentPlayer_def getCurrentPlayer_def
        currentShotCount_def split: option.splits)
  show ?thesis
    using sv rest by (simp add: turnFrame_def)
qed

lemma step_turn:
  assumes "currentPlayerIndex s = Some i" and "i < length (players s)" and "withinTurn ev"
  shows "turnFrame (step ev s) = turnFrame s
       \<and> currentShotCount (step ev s) = currentShotCount s + strokesTaken [ev] s"
proof (cases ev)
  case (ControllerTick j input facing)
  then show ?thesis
    using playerInput_turn [OF assms(1,2), of j input facing] assms(1) by auto
next
  case BallInWater
  then show ?thesis
    using handleWaterHazard_turn [OF assms(1,2)] assms(1,2)
    by (simp add: getCurrentPlayer_def)
next
  case (BallPhysics pos vel ang)
  then show ?thesis
    by (simp add: turnFrame_def currentShotCount_def getCurrentPlayer_def scoreView_def
        split: option.splits)
qed (use assms(3) in simp_all)

lemma run_turn:
  assumes "currentPlayerIndex s = Some i" and "i < length (players s)" and "list_all withinTurn evs"
  shows "turnFrame (run evs s) = turnFrame s
       \<and> currentShotCount (run evs s) = currentShotCount s + strokesTaken evs s"
  using assms unfolding run_def
proof (induction evs arbitrary: s)
  case Nil
  then show ?case by simp
next
  case (Cons ev evs)
  have one: "turnFrame (step ev s) = turnFrame s"
    "currentShotCount (step ev s) = currentShotCount s + strokesTaken [ev] s"
    using step_turn [OF Cons.prems(1,2), of ev] Cons.prems(3) by simp_all
  have idx: "currentPlayerIndex (step ev s) = Some i" "i < length (players (step ev s))"
    using one(1) Cons.prems(1,2) by (simp_all add: turnFrame_def)
  have rest: "turnFrame (fold step evs (step ev s)) = turnFrame (step ev s)"
    "currentShotCount (fold step evs (step ev s))
       = currentShotCount (step ev s) + strokesTaken evs (step ev s)"
    using Cons.IH [OF idx] Cons.prems(3) by simp_all
  show ?case
    using one rest by simp
qed

lemma startPlayerTurn_turn:
  assumes "currentPlayerIndex s = Some i" and "i < length (players s)"
  shows "turnFrame (startPlayerTurn s) = turnFrame s \<and> currentShotCount (startPlayerTurn s) = 0"
  using assms startPlayerTurn_nth [OF assms assms(2)]
  by (simp add: turnFrame_def scoreView_startPlayerTurn currentShotCount_def getCurrentPlayer_def
      startTurn_def startAiming_def)

lemma arraySet_nth: "arraySet xs i v ! i = Some v"
  by (simp add: arraySet_def nth_append)

lemma handleBallInHole_records:
  assumes "gameInProgress s" and "currentPlayerIndex s = Some i" and "i < length (players s)"
  shows "strokes (snd (players (fst (handleBallInHole s)) ! i)) ! currentHole s
           = Some (currentShotCount s)
       \<and> totalStrokes (snd (players (fst (handleBallInHole s)) ! i))
           = totalStrokes (snd (players s ! i)) + currentShotCount s"
  using assms
  by (simp add: handleBallInHole_def Let_def modifyCurrentPlayer_def getCurrentPlayer_def
      currentShotCount_def getScore_def arraySet_nth)

text \<open>
  C10. \<open>startTurn\<close> sets the shot count to 0. Hence, whatever the current player's
  shot count was before, once the manager has started that player's turn and the
  player has played (controller ticks, water penalties, the ball moving), a ball-in-hole
  event records for the current hole exactly the number of shots and water penalties
  since that turn start, and adds that number to the player's total.
\<close>

theorem C10_shot_count_reset_on_turn_start:
  assumes "gameInProgress s" and "currentPlayerIndex s = Some i" and "i < length (players s)"
    and "list_all withinTurn evs"
  shows "shotCount (startTurn e) = 0
       \<and> (let turnStart = startPlayerTurn s;
               holedOut = fst (handleBallInHole (run evs turnStart))
           in strokes (snd (players holedOut ! i)) ! currentHole s
                = Some (strokesTaken evs turnStart)
            \<and> totalStrokes (snd (players holedOut ! i))
                = totalStrokes (snd (players s ! i)) + strokesTaken evs turnStart)"
proof -
  let ?t = "startPlayerTurn s"
  let ?u = "run evs ?t"
  have t: "turnFrame ?t = turnFrame s" "currentShotCount ?t = 0"
    using startPlayerTurn_turn [OF assms(2,3)] by simp_all
  have tidx: "currentPlayerIndex ?t = Some i" "i < length (players ?t)"
    using t(1) assms(2,3) by (simp_all add: turnFrame_def)
  have u: "turnFrame ?u = turnFrame s" "currentShotCount ?u = strokesTaken evs ?t"
    using run_turn [OF tidx assms(4)] t by simp_all
  have uidx: "gameInProgress ?u" "currentPlayerIndex ?u = Some i" "i < length (players ?u)"
    and hole: "currentHole ?u = currentHole s"
    and view: "scoreView ?u = scoreView s"
    using u(1) assms(1,2,3) by (simp_all add: turnFrame_def)
  have tot: "totalStrokes (snd (players ?u ! i)) = totalStrokes (snd (players s ! i))"
  proof -
    have "snd (scoreView ?u ! i) = snd (scoreView s ! i)" using view by simp
    then show ?thesis using uidx(3) assms(3) by (simp add: scoreView_def)
  qed
  have "shotCount (startTurn e) = 0"
    by (simp add: startTurn_def startAiming_def)
  then show ?thesis
    using handleBallInHole_records [OF uidx] u(2) hole tot by (simp add: Let_def)
qed

lemma aliceTurnComesBack_facts:
  "gameInProgress aliceTurnComesBack \<and> currentPlayerIndex aliceTurnComesBack = Some 0
   \<and> length (players aliceTurnComesBack) = 2 \<and> currentHole aliceTurnComesBack = 0
   \<and> fst (players aliceTurnComesBack ! 0) = ''alice''
   \<and> shotCount (golfEntity (snd (players aliceTurnComesBack ! 0))) = 1
   \<and> totalStrokes (snd (players aliceTurnComesBack ! 0)) = 0
   \<and> list_all withinTurn [press 0, release 0]
   \<and> strokesTaken [press 0, release 0] (startPlayerTurn aliceTurnComesBack) = 1"
  by code_simp

theorem C10_shot_count_reset_on_turn_start_witness:
  "gameInProgress aliceTurnComesBack \<and> currentPlayerIndex aliceTurnComesBack = Some 0
   \<and> 0 < length (players aliceTurnComesBack) \<and> list_all withinTurn [press 0, release 0]
   \<and> shotCount (golfEntity (snd (players aliceTurnComesBack ! 0))) = 1
   \<and> strokesTaken [press 0, release 0] (startPlayerTurn aliceTurnComesBack) = 1
   \<and> strokes (snd (players aliceHolesOut ! 0)) ! 0 = Some 1
   \<and> totalStrokes (snd (players aliceHolesOut ! 0)) = 1"
proof -
  have prog: "gameInProgress aliceTurnComesBack"
    and idx: "currentPlayerIndex aliceTurnComesBack = Some 0"
    and len: "0 < length (players aliceTurnComesBack)"
    and evs: "list_all withinTurn [press 0, release 0]"
    using aliceTurnComesBack_facts by simp_all
  note inst = C10_shot_count_reset_on_turn_start [OF prog idx len evs]
  show ?thesis
    using inst aliceTurnComesBack_facts by (simp add: Let_def aliceHolesOut_def)
qed

section \<open>Invariants of the running server\<close>

lemma entitySound_methods:
  assumes "entitySound e"
  shows "entitySound (startTurn e)" and "entitySound (endTurn e)"
    and "entitySound (setGolfBall ball e)" and "entitySound (e\<lparr>shotCount := n\<rparr>)"
    and "entitySound (fst (tickWithPlayerInput input facing e bs))"
proof -
  have mp: "0 \<le> maxPower e" and rng: "powerInRange e" and w: "inWorld e" and m100: "maxPower e = 100"
    using assms by (simp_all add: entitySound_def)
  show "entitySound (startTurn e)" "entitySound (endTurn e)" "entitySound (setGolfBall ball e)"
    "entitySound (e\<lparr>shotCount := n\<rparr>)"
    using assms
    by (simp_all add: entitySound_def powerInRange_def startTurn_def startAiming_def endTurn_def
        setGolfBall_def)
  have "inWorld (fst (tickWithPlayerInput input facing e bs))"
    using w
    by (simp add: tickWithPlayerInput_def executeShot_def Let_def startCharging_def
        updatePower_def toggleAiming_def startAiming_def stopAiming_def split: option.splits)
  then show "entitySound (fst (tickWithPlayerInput input facing e bs))"
    using tick_power [OF mp rng, of input facing bs] m100 by (simp add: entitySound_def)
qed

lemma entitiesSound_players:
  assumes "entitiesSound s" and "players s' = players s"
  shows "entitiesSound s'"
  using assms by (simp add: entitiesSound_def)

lemma entitiesSound_startPlayerTurn:
  assumes "entitiesSound s"
  shows "entitiesSound (startPlayerTurn s)"
proof (cases "getCurrentPlayer s")
  case None
  then show ?thesis using assms by (simp add: startPlayerTurn_noop)
next
  case (Some cur)
  then obtain i where i: "currentPlayerIndex s = Some i" "i < length (players s)"
    by (auto simp add: getCurrentPlayer_def split: option.splits if_splits)
  have "entitySound (golfEntity (snd (players (startPlayerTurn s) ! j)))"
    if j: "j < length (players s)" for j
  proof -
    have e: "entitySound (golfEntity (snd (players s ! j)))"
      using assms j by (simp add: entitiesSound_def list_all_length)
    have "entitySound (giveBall s (golfEntity (snd (players s ! j))))"
      using e by (simp add: giveBall_def entitySound_methods split: option.splits)
    then have "entitySound (startTurn (giveBall s (golfEntity (snd (players s ! j)))))"
      by (rule entitySound_methods)
    moreover have "entitySound (endTurn (golfEntity (snd (players s ! j))))"
      using e by (rule entitySound_methods)
    ultimately show ?thesis
      by (auto simp add: startPlayerTurn_nth [OF i j])
  qed
  then show ?thesis
    by (simp add: entitiesSound_def list_all_length)
qed

lemma entitiesSound_nextPlayerTurn:
  assumes "entitiesSound s"
  shows "entitiesSound (nextPlayerTurn s)"
proof -
  have a: "entitiesSound (s\<lparr>timers := ts\<rparr>)" for ts
    by (rule entitiesSound_players [OF assms]) simp
  have b: "entitiesSound (startPlayerTurn (s\<lparr>currentPlayerIndex := x\<rparr>))" for x
    by (rule entitiesSound_startPlayerTurn, rule entitiesSound_players [OF assms]) simp
  show ?thesis
    using a b by (simp add: nextPlayerTurn_def)
qed

lemma entitiesSound_startHole:
  assumes "entitiesSound s"
  shows "entitiesSound (fst (startHole n s))"
proof -
  have "entitiesSound (startPlayerTurn s')" if "players s' = players s" for s'
    by (rule entitiesSound_startPlayerTurn, rule entitiesSound_players [OF assms that])
  then show ?thesis
    using assms by (simp add: startHole_def Let_def split: option.splits)
qed

lemma entitiesSound_modifyCurrentPlayer:
  assumes "entitiesSound s" and "\<And>p. entitySound (golfEntity p) \<Longrightarrow> entitySound (golfEntity (m p))"
  shows "entitiesSound (modifyCurrentPlayer m s)"
proof (cases "getCurrentPlayer s")
  case None
  then have "modifyCurrentPlayer m s = s"
    by (simp add: modifyCurrentPlayer_def getCurrentPlayer_def split: option.splits if_splits)
  then show ?thesis using assms(1) by simp
next
  case (Some cur)
  then obtain i where i: "currentPlayerIndex s = Some i" "i < length (players s)"
    by (auto simp add: getCurrentPlayer_def split: option.splits if_splits)
  have "entitySound (golfEntity (snd (players s ! i)))"
    using assms(1) i by (simp add: entitiesSound_def list_all_length)
  then have "entitySound (golfEntity (m (snd (players s ! i))))"
    by (rule assms(2))
  then show ?thesis
    using assms(1) i
    by (simp add: modifyCurrentPlayer_def entitiesSound_def list_all_update)
qed

lemma entitiesSound_step:
  assumes "entitiesSound s"
  shows "entitiesSound (step ev s)"
proof (cases ev)
  case (JoinedWorld pid)
  have "entitySound (spawnPlayer (Vec3 0 3 (- 30)) (newGolfPlayer (Some 100)))"
    by (simp add: entitySound_def powerInRange_def spawnPlayer_def newGolfPlayer_def)
  then show ?thesis
    using assms JoinedWorld
    by (simp add: joinedWorld_def addPlayer_def Let_def entitiesSound_def list_all_alist_update)
next
  case (LeftWorld pid)
  have "entitiesSound (s\<lparr>players := AList.delete pid (players s)\<rparr>)"
    using assms by (simp add: entitiesSound_def list_all_iff AList.delete_eq)
  then show ?thesis
    using LeftWorld by (simp add: leftWorld_def removePlayer_def Let_def entitiesSound_nextPlayerTurn)
next
  case CmdStartGolf
  let ?s2 = "s\<lparr>gameInProgress := True, currentHole := 0, currentPlayerIndex := Some 0,
      players := map (\<lambda>(k, p). (k, p\<lparr>strokes := [], totalStrokes := 0, scoreCurrentHole := 0\<rparr>))
                  (players s)\<rparr>"
  have "entitiesSound (createGolfBall ?s2)"
    using assms
    by (simp add: entitiesSound_def createGolfBall_def Let_def list_all_iff case_prod_beta
        split: option.splits)
  then have "entitiesSound (fst (startHole 0 (createGolfBall ?s2)))"
    by (rule entitiesSound_startHole)
  then show ?thesis
    using assms CmdStartGolf by (simp add: startGame_def Let_def)
next
  case CmdEndGolf
  have "entitiesSound (s\<lparr>gameInProgress := False\<rparr>)"
    by (rule entitiesSound_players [OF assms]) simp
  then have "entitiesSound (modifyCurrentPlayer (\<lambda>p. p\<lparr>golfEntity := endTurn (golfEntity p)\<rparr>)
      (s\<lparr>gameInProgress := False\<rparr>))"
    by (rule entitiesSound_modifyCurrentPlayer) (simp add: entitySound_methods)
  then show ?thesis
    using assms CmdEndGolf by (simp add: endGame_def Let_def split: list.splits)
next
  case BallInHole
  have m: "entitiesSound (modifyCurrentPlayer m s)"
    if "\<And>p. golfEntity (m p) = golfEntity p" for m
    by (rule entitiesSound_modifyCurrentPlayer [OF assms]) (simp add: that)
  have "entitiesSound (modifyCurrentPlayer m s\<lparr>timers := ts\<rparr>)"
    if "\<And>p. golfEntity (m p) = golfEntity p" for m ts
    by (rule entitiesSound_players [OF m [OF that]]) simp
  then show ?thesis
    using assms BallInHole m by (simp add: handleBallInHole_def Let_def split: option.splits)
next
  case BallInWater
  let ?m = "\<lambda>p. p\<lparr>golfEntity := (golfEntity p)\<lparr>shotCount := shotCount (golfEntity p) + 1\<rparr>\<rparr>"
  have m: "entitiesSound (modifyCurrentPlayer ?m s)"
    by (rule entitiesSound_modifyCurrentPlayer [OF assms]) (simp add: entitySound_methods)
  have "entitiesSound (modifyCurrentPlayer ?m s\<lparr>balls := bs\<rparr>)" for bs
    by (rule entitiesSound_players [OF m]) simp
  then show ?thesis
    using assms BallInWater m by (simp add: handleWaterHazard_def Let_def split: option.splits)
next
  case (ControllerTick j input facing)
  show ?thesis
  proof (cases "j < length (players s)")
    case False
    then show ?thesis using assms ControllerTick by (simp add: playerInput_def)
  next
    case True
    have "entitySound (golfEntity (snd (players s ! j)))"
      using assms True by (simp add: entitiesSound_def list_all_length)
    then have "entitySound (fst (tickWithPlayerInput input facing (golfEntity (snd (players s ! j)))
        (balls s)))"
      by (rule entitySound_methods)
    then show ?thesis
      using assms True ControllerTick
      by (simp add: playerInput_def case_prod_beta entitiesSound_def list_all_update)
  qed
next
  case (TimerFires k)
  have rm: "entitiesSound (s\<lparr>timers := removeTimer k (timers s)\<rparr>)"
    by (rule entitiesSound_players [OF assms]) simp
  have "entitiesSound (fst (fireTimer t (s\<lparr>timers := removeTimer k (timers s)\<rparr>)))" for t
    using rm by (cases t) (simp_all add: fireTimer_def entitiesSound_nextPlayerTurn entitiesSound_startHole)
  then show ?thesis
    using assms TimerFires by simp
next
  case (BallPhysics pos vel ang)
  have "entitiesSound (s\<lparr>balls := bs\<rparr>)" for bs
    by (rule entitiesSound_players [OF assms]) simp
  then show ?thesis
    using assms BallPhysics by (simp split: option.splits)
qed

lemma entitiesSound_run: "entitiesSound (run evs newManager)"
proof -
  have "entitiesSound (fold step evs s)" if "entitiesSound s" for s
    using that by (induction evs arbitrary: s) (simp_all add: entitiesSound_step)
  moreover have "entitiesSound newManager"
    by (simp add: entitiesSound_def newManager_def)
  ultimately show ?thesis by (simp add: run_def)
qed

lemma onBall_spawned:
  assumes "\<And>b. isSpawned (m b) = isSpawned b"
  shows "length (onBall ref m bs) = length bs
       \<and> isSpawned (onBall ref m bs ! k) = isSpawned (bs ! k)"
  by (cases "k = ref") (simp_all add: onBall_def assms)

lemma courseReady_balls:
  assumes "courseReady s"
    and "length bs = length (balls s)" and "\<And>k. isSpawned (bs ! k) = isSpawned (balls s ! k)"
  shows "courseReady (s\<lparr>balls := bs\<rparr>)"
  using assms by (simp add: courseReady_def split: option.splits)

lemma courseReady_onBall:
  assumes "courseReady s" and "\<And>b. isSpawned (m b) = isSpawned b"
  shows "courseReady (s\<lparr>balls := onBall ref m (balls s)\<rparr>)"
  by (rule courseReady_balls [OF assms(1)]) (simp_all add: onBall_spawned [OF assms(2)])

lemma courseReady_frame:
  assumes "courseReady s" and "holes s' = holes s" and "currentHole s' = currentHole s"
    and "golfBall s' = golfBall s" and "balls s' = balls s"
  shows "courseReady s'"
  using assms by (simp add: courseReady_def split: option.splits)

lemma courseReady_startPlayerTurn:
  assumes "courseReady s"
  shows "courseReady (startPlayerTurn s)"
  by (rule courseReady_frame [OF assms]) simp_all

lemma courseReady_nextPlayerTurn:
  assumes "courseReady s"
  shows "courseReady (nextPlayerTurn s)"
  by (rule courseReady_frame [OF assms]) (simp_all add: nextPlayerTurn_def)

lemma courseReady_modifyCurrentPlayer:
  assumes "courseReady s"
  shows "courseReady (modifyCurrentPlayer m s)"
  by (rule courseReady_frame [OF assms])
     (simp_all add: modifyCurrentPlayer_def split: option.splits)

lemma courseReady_startHole:
  assumes "holes s \<noteq> []"
    and "currentHole s < length (holes s)"
    and "case golfBall s of None \<Rightarrow> True | Some ball \<Rightarrow> ball < length (balls s)"
    and "n < length (holes s) \<or> courseReady s"
  shows "courseReady (fst (startHole n s))"
proof (cases "n < length (holes s)")
  case False
  then show ?thesis using assms(4) by (simp add: startHole_def)
next
  case True
  have "courseReady (s\<lparr>currentHole := n,
      balls := onBall ball (spawnBall pos) (balls s), currentPlayerIndex := Some 0\<rparr>)"
    if "golfBall s = Some ball" for ball pos
    using assms(1,3) True that by (simp add: courseReady_def onBall_def spawnBall_def)
  moreover have "courseReady (s\<lparr>currentHole := n, currentPlayerIndex := Some 0\<rparr>)"
    if "golfBall s = None"
    using assms(1) True that by (simp add: courseReady_def)
  ultimately show ?thesis
    using True
    by (auto simp add: startHole_def Let_def courseReady_startPlayerTurn split: option.splits)
qed

lemma courseReady_playerInput:
  assumes "courseReady s"
  shows "courseReady (fst (playerInput j input facing s))"
proof (cases "j < length (players s)")
  case False
  then show ?thesis using assms by (simp add: playerInput_def)
next
  case True
  let ?e = "golfEntity (snd (players s ! j))"
  have hit: "isSpawned (hit d f b) = isSpawned b" for d f b
    by (simp add: hit_def applyImpulse_def Let_def)
  have reset: "isSpawned (resetToPosition pos b) = isSpawned b" for pos b
    by (simp add: resetToPosition_def stopBall_def)
  have exec: "length (fst (snd (executeShot facing e bs))) = length bs
      \<and> isSpawned (fst (snd (executeShot facing e bs)) ! k) = isSpawned (bs ! k)" for e bs k
    using onBall_spawned [of "hit facing (shotForce (e\<lparr>isCharging := False\<rparr>))", OF hit]
    by (simp add: executeShot_def Let_def split: option.splits)
  have rb: "length (resetBall e bs) = length bs
      \<and> isSpawned (resetBall e bs ! k) = isSpawned (bs ! k)" for e bs k
    using onBall_spawned [OF reset]
    by (simp add: resetBall_def Let_def split: option.splits)
  have tick: "length (fst (snd (tickWithPlayerInput input facing e bs))) = length bs
      \<and> isSpawned (fst (snd (tickWithPlayerInput input facing e bs)) ! k) = isSpawned (bs ! k)"
    for e bs k
    using exec [of e bs k] rb
    by (simp add: tickWithPlayerInput_def Let_def case_prod_beta)
  have "courseReady (s\<lparr>balls := fst (snd (tickWithPlayerInput input facing ?e (balls s)))\<rparr>)"
    by (rule courseReady_balls [OF assms]) (simp_all add: tick)
  then have "courseReady (fst (playerInput j input facing s))"
    using True
    by (simp add: playerInput_def case_prod_beta courseReady_def split: option.splits)
  then show ?thesis .
qed

lemma courseReady_startGame:
  assumes "courseReady s"
  shows "courseReady (fst (startGame s))"
proof (cases "length (players s) = 0")
  case True
  then show ?thesis using assms by (simp add: startGame_def)
next
  case False
  let ?s2 = "s\<lparr>gameInProgress := True, currentHole := 0, currentPlayerIndex := Some 0,
      players := map (\<lambda>(k, p). (k, p\<lparr>strokes := [], totalStrokes := 0, scoreCurrentHole := 0\<rparr>))
                  (players s)\<rparr>"
  have holes: "holes (createGolfBall ?s2) \<noteq> []"
    and cur: "currentHole (createGolfBall ?s2) < length (holes (createGolfBall ?s2))"
    and ball: "case golfBall (createGolfBall ?s2) of None \<Rightarrow> True
               | Some ball \<Rightarrow> ball < length (balls (createGolfBall ?s2))"
    and zero: "0 < length (holes (createGolfBall ?s2))"
    using assms
    by (simp_all add: courseReady_def createGolfBall_def Let_def onBall_def
        split: option.splits)
  have "courseReady (fst (startHole 0 (createGolfBall ?s2)))"
    by (rule courseReady_startHole [OF holes cur ball]) (use holes in simp)
  then show ?thesis
    using False by (simp add: startGame_def Let_def)
qed

lemma courseReady_startHole_ready:
  assumes "courseReady s"
  shows "courseReady (fst (startHole n s))"
  using assms
  by (intro courseReady_startHole) (simp_all add: courseReady_def split: option.splits)

lemma courseReady_step:
  assumes "courseReady s"
  shows "courseReady (step ev s)"
proof (cases ev)
  case (JoinedWorld pid)
  show ?thesis
    unfolding JoinedWorld
    by (rule courseReady_frame [OF assms]) (simp_all add: joinedWorld_def addPlayer_def Let_def)
next
  case (LeftWorld pid)
  have "courseReady (s\<lparr>players := AList.delete pid (players s)\<rparr>)"
    by (rule courseReady_frame [OF assms]) simp_all
  then show ?thesis
    using LeftWorld by (simp add: leftWorld_def removePlayer_def Let_def courseReady_nextPlayerTurn)
next
  case CmdStartGolf
  then show ?thesis using assms by (simp add: courseReady_startGame)
next
  case CmdEndGolf
  have "courseReady (s\<lparr>gameInProgress := False\<rparr>)"
    by (rule courseReady_frame [OF assms]) simp_all
  then have "courseReady (modifyCurrentPlayer m (s\<lparr>gameInProgress := False\<rparr>))" for m
    by (rule courseReady_modifyCurrentPlayer)
  then show ?thesis
    using assms CmdEndGolf by (simp add: endGame_def Let_def split: list.splits)
next
  case BallInHole
  have m: "courseReady (modifyCurrentPlayer m s)" for m
    by (rule courseReady_modifyCurrentPlayer [OF assms])
  have "courseReady (modifyCurrentPlayer m s\<lparr>timers := ts\<rparr>)" for m ts
    by (rule courseReady_frame [OF m]) simp_all
  then show ?thesis
    using assms BallInHole m by (simp add: handleBallInHole_def Let_def split: option.splits)
next
  case BallInWater
  have m: "courseReady (modifyCurrentPlayer m s)" for m
    by (rule courseReady_modifyCurrentPlayer [OF assms])
  have reset: "isSpawned (resetToPosition pos b) = isSpawned b" for pos b
    by (simp add: resetToPosition_def stopBall_def)
  have "courseReady (modifyCurrentPlayer m s
          \<lparr>balls := onBall ball (resetToPosition pos) (balls (modifyCurrentPlayer m s))\<rparr>)"
    for m ball pos
    by (rule courseReady_onBall [OF m reset])
  then show ?thesis
    using assms BallInWater m by (simp add: handleWaterHazard_def Let_def split: option.splits)
next
  case (ControllerTick j input facing)
  then show ?thesis using assms by (simp add: courseReady_playerInput)
next
  case (TimerFires k)
  have rm: "courseReady (s\<lparr>timers := removeTimer k (timers s)\<rparr>)"
    by (rule courseReady_frame [OF assms]) simp_all
  have "courseReady (fst (fireTimer t (s\<lparr>timers := removeTimer k (timers s)\<rparr>)))" for t
    using rm
    by (cases t) (simp_all add: fireTimer_def courseReady_nextPlayerTurn courseReady_startHole_ready)
  then show ?thesis
    using assms TimerFires by simp
next
  case (BallPhysics pos vel ang)
  have phys: "isSpawned (ballPhysics pos vel ang b) = isSpawned b" for b
    by (simp add: ballPhysics_def)
  have "courseReady (s\<lparr>balls := onBall ball (ballPhysics pos vel ang) (balls s)\<rparr>)" for ball
    by (rule courseReady_onBall [OF assms phys])
  then show ?thesis
    using assms BallPhysics by (simp split: option.splits)
qed

lemma courseReady_run: "courseReady (run evs newManager)"
proof -
  have "courseReady (fold step evs s)" if "courseReady s" for s
    using that by (induction evs arbitrary: s) (simp_all add: courseReady_step)
  moreover have "courseReady newManager"
    by (simp add: courseReady_def newManager_def setupDefaultCourse_def)
  ultimately show ?thesis by (simp add: run_def)
qed

section \<open>The power meter of every registered entity\<close>

text \<open>
  C5. In every state the server can reach, every registered player entity has
  \<open>maxPower = 100\<close> and \<open>0 \<le> currentPower \<le> maxPower\<close>. More generally, for a player
  entity whose maximum power is not negative (the option is documented as ranging over 0
  to 100), \<open>0 \<le> currentPower \<le> maxPower\<close> is kept by the input listener and by every
  method of the entity, none of which changes \<open>maxPower\<close>; it holds after construction,
  where the power is 0. While charging, a tick with the key held raises the power by
  \<open>maxPower / 120\<close>, clamped at \<open>maxPower\<close>. The power is 0 after the shot is
  released, after charging starts and after the turn ends.
\<close>

theorem C5_power_charge_invariant:
  assumes "0 \<le> maxPower e" and "powerInRange e"
  shows "(\<forall>kp \<in> set (players (run evs newManager)).
            maxPower (golfEntity (snd kp)) = 100
          \<and> 0 \<le> currentPower (golfEntity (snd kp))
          \<and> currentPower (golfEntity (snd kp)) \<le> maxPower (golfEntity (snd kp)))
       \<and> (maxPower (fst (tickWithPlayerInput input facing e bs)) = maxPower e
           \<and> powerInRange (fst (tickWithPlayerInput input facing e bs)))
       \<and> (maxPower (fst (executeShot facing e bs)) = maxPower e
           \<and> powerInRange (fst (executeShot facing e bs)))
       \<and> (maxPower (updatePower e) = maxPower e \<and> powerInRange (updatePower e))
       \<and> (maxPower (startCharging e) = maxPower e \<and> powerInRange (startCharging e)
           \<and> maxPower (startTurn e) = maxPower e \<and> powerInRange (startTurn e)
           \<and> maxPower (endTurn e) = maxPower e \<and> powerInRange (endTurn e)
           \<and> maxPower (setGolfBall ball e) = maxPower e \<and> powerInRange (setGolfBall ball e)
           \<and> maxPower (toggleAiming e) = maxPower e \<and> powerInRange (toggleAiming e)
           \<and> maxPower (spawnPlayer pos e) = maxPower e \<and> powerInRange (spawnPlayer pos e))
       \<and> ((isCharging e \<longrightarrow>
              currentPower (updatePower e) = min (currentPower e + maxPower e / 120) (maxPower e))
           \<and> (isPlayerTurn e \<and> isCharging e \<and> input_sp input \<longrightarrow>
                currentPower (fst (tickWithPlayerInput input facing e bs))
                  = min (currentPower e + maxPower e / 120) (maxPower e)))
       \<and> ((isPlayerTurn e \<and> isCharging e \<and> \<not> input_sp input \<and> currentBall e \<noteq> None \<and> inWorld e \<longrightarrow>
                currentPower (fst (tickWithPlayerInput input facing e bs)) = 0)
           \<and> (isCharging e \<and> currentBall e \<noteq> None \<and> inWorld e \<longrightarrow>
                currentPower (fst (executeShot facing e bs)) = 0)
           \<and> currentPower (startCharging e) = 0
           \<and> currentPower (endTurn e) = 0
           \<and> currentPower (newGolfPlayer optMaxPower) = 0)"
proof -
  have reach: "\<forall>kp \<in> set (players (run evs newManager)).
            maxPower (golfEntity (snd kp)) = 100
          \<and> 0 \<le> currentPower (golfEntity (snd kp))
          \<and> currentPower (golfEntity (snd kp)) \<le> maxPower (golfEntity (snd kp))"
    using entitiesSound_run [of evs]
    by (auto simp add: entitiesSound_def entitySound_def powerInRange_def list_all_iff)
  show ?thesis
    by (intro conjI reach tick_power [OF assms, THEN conjunct1] tick_power [OF assms, THEN conjunct2]
        executeShot_power [OF assms, THEN conjunct1] executeShot_power [OF assms, THEN conjunct2]
        updatePower_power [OF assms, THEN conjunct1] updatePower_power [OF assms, THEN conjunct2])
       (use simple_methods_power [OF assms, of ball pos] power_steps [of e input facing bs]
          power_resets [of e input facing bs optMaxPower] in blast)+
qed

theorem C5_power_charge_invariant_witness:
  "0 \<le> maxPower chargingPlayer \<and> powerInRange chargingPlayer
   \<and> isPlayerTurn chargingPlayer \<and> isCharging chargingPlayer
   \<and> currentBall chargingPlayer \<noteq> None \<and> inWorld chargingPlayer
   \<and> powerInRange (fst (tickWithPlayerInput (PlayerInput True False False) (Vec3 1 0 0)
                           chargingPlayer [teedBall]))
   \<and> currentPower (updatePower chargingPlayer) = 50 + 100 / 120
   \<and> currentPower (fst (tickWithPlayerInput (PlayerInput True False False) (Vec3 1 0 0)
                           chargingPlayer [teedBall])) = 50 + 100 / 120
   \<and> currentPower (fst (executeShot (Vec3 1 0 0) chargingPlayer [teedBall])) = 0
   \<and> maxPower (golfEntity (snd (players twoPlayerGame ! 0))) = 100
   \<and> 0 \<le> currentPower (golfEntity (snd (players twoPlayerGame ! 0)))
   \<and> currentPower (golfEntity (snd (players twoPlayerGame ! 0))) \<le> 100"
proof -
  have mem: "players twoPlayerGame ! 0 \<in> set (players twoPlayerGame)"
    using twoPlayerGame_facts by simp
  have mp: "0 \<le> maxPower chargingPlayer"
    by (simp add: chargingPlayer_def newGolfPlayer_def)
  have rng: "powerInRange chargingPlayer"
    by (simp add: powerInRange_def chargingPlayer_def newGolfPlayer_def)
  have flags: "isPlayerTurn chargingPlayer \<and> isCharging chargingPlayer
      \<and> currentBall chargingPlayer \<noteq> None \<and> inWorld chargingPlayer
      \<and> input_sp (PlayerInput True False False)"
    by (simp add: chargingPlayer_def newGolfPlayer_def)
  have vals: "min (currentPower chargingPlayer + maxPower chargingPlayer / 120)
                  (maxPower chargingPlayer) = 50 + 100 / 120"
    by (simp add: chargingPlayer_def newGolfPlayer_def)
  note inst = C5_power_charge_invariant [OF mp rng,
      of "[JoinedWorld ''alice'', JoinedWorld ''bob'', CmdStartGolf]"
         "PlayerInput True False False" "Vec3 1 0 0" "[teedBall]" 0 zeroVec None,
      folded twoPlayerGame_def]
  have reach: "maxPower (golfEntity (snd (players twoPlayerGame ! 0))) = 100
      \<and> 0 \<le> currentPower (golfEntity (snd (players twoPlayerGame ! 0)))
      \<and> currentPower (golfEntity (snd (players twoPlayerGame ! 0))) \<le> 100"
    using inst [THEN conjunct1, rule_format, OF mem] by simp
  show ?thesis
    using inst mp rng flags vals reach by simp
qed

section \<open>The shot of every registered entity\<close>

text \<open>
  C6. A tick with the charge key released, on an entity that is charging on its turn
  with a ball assigned (and that is in the world), emits one shot event: the assigned
  ball receives \<open>hit\<close> with the camera's facing direction and force
  \<open>currentPower / maxPower * 50\<close>, the shot count grows by one and charging ends. With
  the power in range and a positive maximum the force is at most 50. When it is not the
  entity's turn, or it is not charging, or it has no ball, the tick emits no shot event,
  leaves the shot count alone and hands no impulse to any ball. In every state the
  server can reach, every registered entity is in the world, has a positive maximum power
  and a power in range, so the force of any shot it takes is at most 50.
\<close>

theorem C6_shot_execution:
  "(isPlayerTurn e \<and> isCharging e \<and> currentBall e = Some ball \<and> inWorld e \<and> \<not> input_sp input \<longrightarrow>
      (case tickWithPlayerInput input facing e bs of
         (e', bs', shots) \<Rightarrow>
           shots = 1 \<and> shotCount e' = shotCount e + 1 \<and> \<not> isCharging e'
           \<and> map appliedImpulses bs'
               = map appliedImpulses (onBall ball (hit facing (currentPower e / maxPower e * 50)) bs)
           \<and> (\<not> input_r input \<longrightarrow>
                 bs' = onBall ball (hit facing (currentPower e / maxPower e * 50)) bs)))
   \<and> (0 \<le> currentPower e \<and> currentPower e \<le> maxPower e \<and> 0 < maxPower e \<longrightarrow>
         currentPower e / maxPower e * 50 \<le> 50)
   \<and> (\<not> isPlayerTurn e \<or> \<not> isCharging e \<or> currentBall e = None \<or> \<not> inWorld e \<longrightarrow>
      (case tickWithPlayerInput input facing e bs of
         (e', bs', shots) \<Rightarrow>
           shots = 0 \<and> shotCount e' = shotCount e
           \<and> map appliedImpulses bs' = map appliedImpulses bs))
   \<and> (\<forall>kp \<in> set (players (run evs newManager)).
         inWorld (golfEntity (snd kp)) \<and> 0 < maxPower (golfEntity (snd kp))
       \<and> currentPower (golfEntity (snd kp)) / maxPower (golfEntity (snd kp)) * 50 \<le> 50)"
proof (intro conjI impI ballI)
  assume a: "isPlayerTurn e \<and> isCharging e \<and> currentBall e = Some ball \<and> inWorld e \<and> \<not> input_sp input"
  show "case tickWithPlayerInput input facing e bs of
         (e', bs', shots) \<Rightarrow>
           shots = 1 \<and> shotCount e' = shotCount e + 1 \<and> \<not> isCharging e'
           \<and> map appliedImpulses bs'
               = map appliedImpulses (onBall ball (hit facing (currentPower e / maxPower e * 50)) bs)
           \<and> (\<not> input_r input \<longrightarrow>
                 bs' = onBall ball (hit facing (currentPower e / maxPower e * 50)) bs)"
    using a by (simp add: tick_release_shot Let_def impulses_resetBall)
next
  assume "0 \<le> currentPower e \<and> currentPower e \<le> maxPower e \<and> 0 < maxPower e"
  then show "currentPower e / maxPower e * 50 \<le> 50"
    using force_bound [of "currentPower e" "maxPower e"] by simp
next
  assume "\<not> isPlayerTurn e \<or> \<not> isCharging e \<or> currentBall e = None \<or> \<not> inWorld e"
  then show "case tickWithPlayerInput input facing e bs of
         (e', bs', shots) \<Rightarrow>
           shots = 0 \<and> shotCount e' = shotCount e
           \<and> map appliedImpulses bs' = map appliedImpulses bs"
    using tick_no_shot [of e input facing bs] by (simp add: case_prod_beta)
next
  fix kp
  assume "kp \<in> set (players (run evs newManager))"
  then have sound: "entitySound (golfEntity (snd kp))"
    using entitiesSound_run [of evs] by (simp add: entitiesSound_def list_all_iff)
  then show "inWorld (golfEntity (snd kp))" and "0 < maxPower (golfEntity (snd kp))"
    by (simp_all add: entitySound_def)
  show "currentPower (golfEntity (snd kp)) / maxPower (golfEntity (snd kp)) * 50 \<le> 50"
    using sound force_bound [of "currentPower (golfEntity (snd kp))" "maxPower (golfEntity (snd kp))"]
    by (simp add: entitySound_def powerInRange_def)
qed

theorem C6_shot_execution_witness:
  "isPlayerTurn chargingPlayer \<and> isCharging chargingPlayer \<and> currentBall chargingPlayer = Some 0
   \<and> inWorld chargingPlayer
   \<and> (case tickWithPlayerInput (PlayerInput False False False) (Vec3 1 0 0) chargingPlayer [teedBall] of
         (e', bs', shots) \<Rightarrow>
           shots = 1 \<and> shotCount e' = 1 \<and> \<not> isCharging e'
           \<and> map appliedImpulses bs' = [[Vec3 (25 * (45 / 1000)) 0 0]])
   \<and> currentPower chargingPlayer / maxPower chargingPlayer * 50 = 25
   \<and> (case tickWithPlayerInput (PlayerInput False False False) (Vec3 1 0 0)
             (chargingPlayer\<lparr>isCharging := False\<rparr>) [teedBall] of
         (e', bs', shots) \<Rightarrow> shots = 0 \<and> shotCount e' = 0 \<and> map appliedImpulses bs' = [[]])"
proof -
  have flags: "isPlayerTurn chargingPlayer \<and> isCharging chargingPlayer
      \<and> currentBall chargingPlayer = Some 0 \<and> inWorld chargingPlayer
      \<and> \<not> input_sp (PlayerInput False False False) \<and> \<not> input_r (PlayerInput False False False)"
    by (simp add: chargingPlayer_def newGolfPlayer_def)
  have vals: "shotCount chargingPlayer = 0
      \<and> currentPower chargingPlayer / maxPower chargingPlayer * 50 = 25"
    by (simp add: chargingPlayer_def newGolfPlayer_def)
  have ball: "map appliedImpulses (onBall 0 (hit (Vec3 1 0 0) 25) [teedBall])
                = [[Vec3 (25 * (45 / 1000)) 0 0]]
            \<and> map appliedImpulses [teedBall] = [[]]"
    by (simp add: onBall_def hit_def applyImpulse_def teedBall_def spawnBall_def newGolfBall_def)
  have idle: "\<not> isCharging (chargingPlayer\<lparr>isCharging := False\<rparr>)
      \<and> shotCount (chargingPlayer\<lparr>isCharging := False\<rparr>) = 0"
    by (simp add: chargingPlayer_def newGolfPlayer_def)
  show ?thesis
    using C6_shot_execution [of chargingPlayer 0 "PlayerInput False False False" "Vec3 1 0 0"
        "[teedBall]"]
      C6_shot_execution [of "chargingPlayer\<lparr>isCharging := False\<rparr>" 0
        "PlayerInput False False False" "Vec3 1 0 0" "[teedBall]"]
      flags vals ball idle
    by (simp add: case_prod_beta)
qed

section \<open>The water hazard on the running server\<close>

text \<open>
  C3. When the water-hazard handler runs and a current player exists, that player's shot
  count grows by exactly one, every other registered player's entry is untouched, and no
  recorded per-hole strokes or totals change. When moreover the manager's ball is
  spawned and the current hole is a hole of the course, the handler raises nothing and
  leaves the ball at the current hole's tee position with zero linear and angular
  velocity. In every state the server can reach the current hole is a hole of the course
  and the manager's ball, once there is one, is spawned.
\<close>

theorem C3_water_hazard_penalty:
  assumes "currentPlayerIndex s = Some i" and "i < length (players s)"
  shows "(let s' = fst (handleWaterHazard s) in
            length (players s') = length (players s)
          \<and> shotCount (golfEntity (snd (players s' ! i)))
              = shotCount (golfEntity (snd (players s ! i))) + 1
          \<and> (\<forall>j. j < length (players s) \<and> j \<noteq> i \<longrightarrow> players s' ! j = players s ! j)
          \<and> (\<forall>j. j < length (players s) \<longrightarrow>
                 strokes (snd (players s' ! j)) = strokes (snd (players s ! j))
               \<and> totalStrokes (snd (players s' ! j)) = totalStrokes (snd (players s ! j))))
       \<and> (golfBall s = Some ball \<and> ball < length (balls s) \<and> isSpawned (balls s ! ball)
            \<and> currentHole s < length (holes s) \<longrightarrow>
           (let s' = fst (handleWaterHazard s) in
              snd (handleWaterHazard s) = None
            \<and> position (balls s' ! ball) = teePosition (holes s ! currentHole s)
            \<and> linearVelocity (balls s' ! ball) = Vec3 0 0 0
            \<and> angularVelocity (balls s' ! ball) = Vec3 0 0 0))
       \<and> (let r = run evs newManager in
            currentHole r < length (holes r)
          \<and> (\<forall>b. golfBall r = Some b \<longrightarrow> b < length (balls r) \<and> isSpawned (balls r ! b)))"
proof (intro conjI impI)
  show "let s' = fst (handleWaterHazard s) in
            length (players s') = length (players s)
          \<and> shotCount (golfEntity (snd (players s' ! i)))
              = shotCount (golfEntity (snd (players s ! i))) + 1
          \<and> (\<forall>j. j < length (players s) \<and> j \<noteq> i \<longrightarrow> players s' ! j = players s ! j)
          \<and> (\<forall>j. j < length (players s) \<longrightarrow>
                 strokes (snd (players s' ! j)) = strokes (snd (players s ! j))
               \<and> totalStrokes (snd (players s' ! j)) = totalStrokes (snd (players s ! j)))"
    using assms
    by (simp add: Let_def handleWaterHazard_players [OF assms] nth_list_update)
next
  assume "golfBall s = Some ball \<and> ball < length (balls s) \<and> isSpawned (balls s ! ball)
            \<and> currentHole s < length (holes s)"
  then show "let s' = fst (handleWaterHazard s) in
              snd (handleWaterHazard s) = None
            \<and> position (balls s' ! ball) = teePosition (holes s ! currentHole s)
            \<and> linearVelocity (balls s' ! ball) = Vec3 0 0 0
            \<and> angularVelocity (balls s' ! ball) = Vec3 0 0 0"
    using handleWaterHazard_ball [OF assms, of ball]
    by (simp add: Let_def zeroVec_def)
next
  show "let r = run evs newManager in
            currentHole r < length (holes r)
          \<and> (\<forall>b. golfBall r = Some b \<longrightarrow> b < length (balls r) \<and> isSpawned (balls r ! b))"
    using courseReady_run [of evs] by (auto simp add: courseReady_def Let_def)
qed

lemma driftedGame_facts:
  "currentPlayerIndex driftedGame = Some 0 \<and> length (players driftedGame) = 2
   \<and> golfBall driftedGame = Some 0 \<and> length (balls driftedGame) = 1
   \<and> isSpawned (balls driftedGame ! 0) \<and> currentHole driftedGame = 0
   \<and> length (holes driftedGame) = 3
   \<and> position (balls driftedGame ! 0) = Vec3 3 1 2
   \<and> linearVelocity (balls driftedGame ! 0) = Vec3 1 0 0
   \<and> teePosition (holes driftedGame ! 0) = Vec3 (-10) 2 0
   \<and> shotCount (golfEntity (snd (players driftedGame ! 0))) = 0
   \<and> shotCount (golfEntity (snd (players driftedGame ! 1))) = 0"
  by (simp add: driftedGame_def twoPlayerGame_def scenario_defs ballPhysics_def)

theorem C3_water_hazard_penalty_witness:
  "currentPlayerIndex driftedGame = Some 0 \<and> 0 < length (players driftedGame)
   \<and> golfBall driftedGame = Some 0 \<and> 0 < length (balls driftedGame)
   \<and> isSpawned (balls driftedGame ! 0) \<and> currentHole driftedGame < length (holes driftedGame)
   \<and> position (balls driftedGame ! 0) = Vec3 3 1 2
   \<and> linearVelocity (balls driftedGame ! 0) = Vec3 1 0 0
   \<and> shotCount (golfEntity (snd (players (fst (handleWaterHazard driftedGame)) ! 0))) = 1
   \<and> shotCount (golfEntity (snd (players (fst (handleWaterHazard driftedGame)) ! 1))) = 0
   \<and> position (balls (fst (handleWaterHazard driftedGame)) ! 0) = Vec3 (-10) 2 0
   \<and> linearVelocity (balls (fst (handleWaterHazard driftedGame)) ! 0) = Vec3 0 0 0
   \<and> angularVelocity (balls (fst (handleWaterHazard driftedGame)) ! 0) = Vec3 0 0 0"
proof -
  have idx: "currentPlayerIndex driftedGame = Some 0" and len: "0 < length (players driftedGame)"
    using driftedGame_facts by simp_all
  have other: "(1::nat) < length (players driftedGame) \<and> (1::nat) \<noteq> 0"
    using driftedGame_facts by simp
  note inst = C3_water_hazard_penalty [OF idx len, of 0 "[]"]
  show ?thesis
    using inst driftedGame_facts other
    by (simp add: Let_def)
qed

end
